theory Spec2Isabelle
  imports Main
begin

section \<open>CineSearch backend: the search broker of \<^verbatim>\<open>server.js\<close>\<close>

text \<open>
  The development embeds the Express backend of CineSearch (the full \<^verbatim>\<open>server.js\<close>, the
  one its integration tests load; the repository also carries an earlier, title-only variant):
  the cached upstream client \<^verbatim>\<open>tmdbFetch\<close>, the \<^verbatim>\<open>GET /api/search\<close> handler and the
  configuration of the two limiters. Line numbers refer to that file.

  Conventions of the embedding.
  \<^item> A JavaScript string is a \<open>string\<close>; each \<open>char\<close> stands for one UTF-16 code unit in
    the range 0..255, so \<open>length\<close> is JavaScript's \<^verbatim>\<open>.length\<close> on such strings.
  \<^item> A query-string field is a \<open>string option\<close>: \<open>None\<close> is \<^verbatim>\<open>undefined\<close>. Repeated
    or bracketed query keys (which Express parses to arrays and objects) are outside the type.
  \<^item> \<^verbatim>\<open>async\<close> code is sequential state passing over a \<open>world\<close>; a thrown exception
    is the value \<open>None\<close> of a fetch and the value \<open>Thrown\<close> of a handler stage.
\<close>

subsection \<open>Strings\<close>

text \<open>\<^verbatim>\<open>String.prototype.trim\<close>: the white space and line terminators of ECMAScript that lie
  in 0..255 are TAB, LF, VT, FF, CR, SP and NBSP.\<close>

definition isWhiteSpace :: "char \<Rightarrow> bool" where
  "isWhiteSpace c = (c \<in> set [CHR 0x09, CHR 0x0A, CHR 0x0B, CHR 0x0C, CHR 0x0D, CHR 0x20, CHR 0xA0])"

definition trim :: "string \<Rightarrow> string" where
  "trim s = rev (dropWhile isWhiteSpace (rev (dropWhile isWhiteSpace s)))"

text \<open>The character class \<^verbatim>\<open>\d\<close> of a regular expression without the unicode flag.\<close>

definition isDigit :: "char \<Rightarrow> bool" where
  "isDigit c = (48 \<le> (of_char c :: nat) \<and> (of_char c :: nat) \<le> 57)"

text \<open>\<^verbatim>\<open>String(n)\<close> and \<^verbatim>\<open>JSON.stringify(n)\<close> for an integral number of magnitude below
  \<open>10^21\<close>: its decimal digits, with a minus sign.\<close>

definition digit_char :: "nat \<Rightarrow> char" where
  "digit_char n = char_of (48 + n)"

function string_of_nat :: "nat \<Rightarrow> string" where
  "string_of_nat n =
     (if n < 10 then [digit_char n] else string_of_nat (n div 10) @ [digit_char (n mod 10)])"
  by pat_completeness auto
termination
  by (relation "measure id") auto

declare string_of_nat.simps [simp del]

definition String_of_int :: "int \<Rightarrow> string" where
  "String_of_int i = (if i < 0 then CHR ''-'' # string_of_nat (nat (- i)) else string_of_nat (nat i))"

subsection \<open>Parameter objects and \<^verbatim>\<open>JSON.stringify\<close>\<close>

text \<open>
  The \<^verbatim>\<open>params\<close> object of an upstream request. A JavaScript object enumerates its
  (non-numeric) keys in insertion order, and \<^verbatim>\<open>JSON.stringify\<close> follows that order, so the
  object is the list of its members in the order the handler assigns them. No key is assigned
  twice in the source.
\<close>

datatype pval = PStr string | PNum int | PBool bool

type_synonym params = "(string \<times> pval) list"

definition hex_digit :: "nat \<Rightarrow> char" where
  "hex_digit n = (if n < 10 then char_of (48 + n) else char_of (87 + n))"

text \<open>The escapes of \<^verbatim>\<open>JSON.stringify\<close> (QuoteJSONString) on code units below 256.\<close>

definition json_escape :: "char \<Rightarrow> string" where
  "json_escape c =
     (let n = (of_char c :: nat) in
      if n = 0x22 then [CHR 0x5C, CHR 0x22]
      else if n = 0x5C then [CHR 0x5C, CHR 0x5C]
      else if n = 0x08 then [CHR 0x5C, CHR ''b'']
      else if n = 0x0C then [CHR 0x5C, CHR ''f'']
      else if n = 0x0A then [CHR 0x5C, CHR ''n'']
      else if n = 0x0D then [CHR 0x5C, CHR ''r'']
      else if n = 0x09 then [CHR 0x5C, CHR ''t'']
      else if n < 0x20 then [CHR 0x5C, CHR ''u'', CHR ''0'', CHR ''0'', hex_digit (n div 16), hex_digit (n mod 16)]
      else [c])"

definition json_quote :: "string \<Rightarrow> string" where
  "json_quote s = CHR 0x22 # concat (map json_escape s) @ [CHR 0x22]"

fun json_value :: "pval \<Rightarrow> string" where
  "json_value (PStr s) = json_quote s"
| "json_value (PNum n) = String_of_int n"
| "json_value (PBool b) = (if b then ''true'' else ''false'')"

fun json_member :: "string \<times> pval \<Rightarrow> string" where
  "json_member (k, v) = json_quote k @ '':'' @ json_value v"

fun join_comma :: "string list \<Rightarrow> string" where
  "join_comma [] = []"
| "join_comma [x] = x"
| "join_comma (x # y # ys) = x @ '','' @ join_comma (y # ys)"

definition JSON_stringify :: "params \<Rightarrow> string" where
  "JSON_stringify ps = ''{'' @ join_comma (map json_member ps) @ ''}''"

subsection \<open>Upstream documents, the cache and the world\<close>

text \<open>
  A document of the provider is a JSON object (hence truthy) with an optional \<^verbatim>\<open>results\<close>
  array and optional pagination fields; \<open>None\<close> is a field that is missing (or \<^verbatim>\<open>null\<close>).
  An entry of \<^verbatim>\<open>results\<close> carries the numeric \<^verbatim>\<open>id\<close> the handler reads and a name or title.
\<close>

datatype item = Item (item_id: int) (item_name: string)

record doc =
  results :: "item list option"
  total_results :: "int option"
  total_pages :: "int option"

definition CACHE_TTL_SECONDS :: nat where
  "CACHE_TTL_SECONDS = 600"

text \<open>
  The \<^verbatim>\<open>NodeCache\<close> instance of lines 70-74 (a library, with \<^verbatim>\<open>stdTTL\<close> set to
  \<open>CACHE_TTL_SECONDS\<close>): a key maps to its value and the time \<open>t\<close>, in milliseconds, at
  which it expires.
\<close>

type_synonym cache = "string \<rightharpoonup> doc \<times> nat"

text \<open>Modelled from the spec: \<^verbatim>\<open>NodeCache.get\<close> is library code outside the repository. An
  entry expires 600 seconds after insertion, and a read of an expired entry is a miss, swept
  or not (section 4.4); as in the library, the entry is expired once \<open>t < now\<close>. The
  library also deletes the expired entry on such a read; the model leaves it in the map, where
  no later read can tell the difference.\<close>

definition cache_get :: "cache \<Rightarrow> nat \<Rightarrow> string \<Rightarrow> doc option" where
  "cache_get c now k =
     (case c k of None \<Rightarrow> None | Some (v, t) \<Rightarrow> if t < now then None else Some v)"

text \<open>Modelled from the spec: \<^verbatim>\<open>NodeCache.set\<close> is library code outside the repository. It
  overwrites the entry of the key and stamps it with \<open>now + stdTTL * 1000\<close> (section 4.4).\<close>

definition cache_set :: "cache \<Rightarrow> nat \<Rightarrow> string \<Rightarrow> doc \<Rightarrow> cache" where
  "cache_set c now k v = c(k \<mapsto> (v, now + CACHE_TTL_SECONDS * 1000))"

text \<open>
  The world a request runs in: the cache, the clock (milliseconds), and two logs kept for
  the statements below: \<open>fetched\<close> records every invocation of \<^verbatim>\<open>tmdbFetch\<close>, \<open>sent\<close>
  every \<^verbatim>\<open>axios.get\<close> that reached the network (the \<^verbatim>\<open>api_key\<close> it adds is left out).
\<close>

record world =
  cache :: cache
  clock :: nat
  fetched :: "(string \<times> params) list"
  sent :: "(string \<times> params) list"

text \<open>
  The provider, as seen through \<^verbatim>\<open>axios.get\<close>: asked at a time for a path and parameters
  it answers after some latency with a document, or the call throws (\<open>None\<close>: transport
  error, timeout, status outside 2xx).
\<close>

type_synonym upstream = "nat \<Rightarrow> string \<Rightarrow> params \<Rightarrow> nat \<times> doc option"

text \<open>\<^verbatim>\<open>tmdbFetch\<close>, lines 82-94. The key is the template string of line 83.\<close>

definition cacheKey :: "string \<Rightarrow> params \<Rightarrow> string" where
  "cacheKey path ps = path @ ''|'' @ JSON_stringify ps"

definition tmdbFetch :: "upstream \<Rightarrow> string \<Rightarrow> params \<Rightarrow> world \<Rightarrow> doc option \<times> world" where
  "tmdbFetch up path ps w =
     (let w0 = w\<lparr>fetched := fetched w @ [(path, ps)]\<rparr> in
      case cache_get (cache w0) (clock w0) (cacheKey path ps) of
        Some cached \<Rightarrow> (Some cached, w0)
      | None \<Rightarrow>
          (let (latency, response) = up (clock w0) path ps;
               w1 = w0\<lparr>sent := sent w0 @ [(path, ps)], clock := clock w0 + latency\<rparr>
           in case response of
                None \<Rightarrow> (None, w1)
              | Some d \<Rightarrow>
                  (Some d, w1\<lparr>cache := cache_set (cache w1) (clock w1) (cacheKey path ps) d\<rparr>)))"

subsection \<open>The request, the response and JavaScript's coercions\<close>

text \<open>\<^verbatim>\<open>req.query\<close>, destructured: \<^verbatim>\<open>{ query, year, genre, cast, director, page = "1" }\<close>.\<close>

record request =
  query :: "string option"
  year :: "string option"
  genre :: "string option"
  cast :: "string option"
  director :: "string option"
  page :: "string option"

text \<open>
  What the handler sends: \<open>Status c m\<close> is \<^verbatim>\<open>res.status(c).json({ error: m })\<close>, and
  \<open>SearchResult rs tr tp p\<close> is the 200 answer
  \<^verbatim>\<open>{ results: rs, total_results: tr, total_pages: tp, page: p }\<close>.
\<close>

datatype response = Status nat string | SearchResult "item list" int int int

definition MissingCriteria :: response where
  "MissingCriteria =
     Status 400 ''Provide at least one search parameter: query, year, genre, cast, or director.''"

definition InvalidYear :: response where
  "InvalidYear = Status 400 ''Invalid year.''"

definition InvalidPage :: response where
  "InvalidPage = Status 400 ''page must be an integer between 1 and 500.''"

definition InvalidGenre :: response where
  "InvalidGenre = Status 400 ''genre must be a numeric TMDB genre ID.''"

definition NameTooLong :: "string \<Rightarrow> response" where
  "NameTooLong field = Status 400 (field @ '' parameter too long.'')"

definition UpstreamUnavailable :: response where
  "UpstreamUnavailable = Status 502 ''Failed to fetch search results from TMDB.''"

text \<open>Truthiness of a query field (\<^verbatim>\<open>undefined\<close> and \<^verbatim>\<open>""\<close> are falsy) and of a
  resolved person id (\<^verbatim>\<open>undefined\<close> and \<^verbatim>\<open>0\<close> are falsy).\<close>

definition truthy :: "string option \<Rightarrow> bool" where
  "truthy v = (case v of None \<Rightarrow> False | Some s \<Rightarrow> s \<noteq> [])"

definition truthy_id :: "int option \<Rightarrow> bool" where
  "truthy_id v = (case v of None \<Rightarrow> False | Some n \<Rightarrow> n \<noteq> 0)"

text \<open>
  \<^verbatim>\<open>Number(s)\<close> followed by \<^verbatim>\<open>Number.isInteger\<close> is a parameter \<open>num\<close> of the handler:
  \<open>num s = Some n\<close> when \<^verbatim>\<open>Number(s)\<close> is the finite integral number \<open>n\<close>, and \<open>None\<close>
  otherwise (\<^verbatim>\<open>NaN\<close>, an infinity, a fraction). The comparisons of the handler are reached
  only on integral values. Theorems hold for every \<open>num\<close>; \<open>Number_digits\<close> is the instance
  used at concrete inputs, equal to JavaScript's conversion on plain decimal digit strings
  (below \<open>2^53\<close>).
\<close>

definition Number_digits :: "string \<Rightarrow> int option" where
  "Number_digits s =
     (if s \<noteq> [] \<and> list_all isDigit s
      then Some (int (foldl (\<lambda>a c. 10 * a + (of_char c - 48)) 0 s))
      else None)"

subsection \<open>\<^verbatim>\<open>GET /api/search\<close>\<close>

text \<open>The validation section, lines 138-162: the criteria, year, page and genre checks, in
  this order. It yields the response of the first failing check, or else the page number.\<close>

definition validate :: "(string \<Rightarrow> int option) \<Rightarrow> int \<Rightarrow> request \<Rightarrow> response + int" where
  "validate num currentYear r =
     (if \<not> truthy (query r) \<and> \<not> truthy (year r) \<and> \<not> truthy (genre r) \<and>
         \<not> truthy (cast r) \<and> \<not> truthy (director r)
      then Inl MissingCriteria
      else if (case year r of
                 None \<Rightarrow> False
               | Some s \<Rightarrow>
                   (case num s of None \<Rightarrow> True | Some y \<Rightarrow> y < 1880 \<or> y > currentYear + 5))
      then Inl InvalidYear
      else
        (case num (case page r of None \<Rightarrow> ''1'' | Some s \<Rightarrow> s) of
           None \<Rightarrow> Inl InvalidPage
         | Some pageNum \<Rightarrow>
             if pageNum < 1 \<or> pageNum > 500 then Inl InvalidPage
             else if (case genre r of
                        None \<Rightarrow> False
                      | Some g \<Rightarrow> \<not> (g \<noteq> [] \<and> list_all isDigit g))
             then Inl InvalidGenre
             else Inr pageNum))"

text \<open>What a section of the handler hands on: a response already sent (\<^verbatim>\<open>return res...\<close>),
  an exception on its way to the \<^verbatim>\<open>catch\<close>, or a value for the next section.\<close>

datatype 'a stage = Respond response | Thrown | Proceed 'a

text \<open>
  The two name-resolution blocks of the handler, lines 164-179 for the cast and 181-196 for
  the director, are the same code up to the field's name; \<open>resolvePerson\<close> is that block:
  \<open>Proceed None\<close> leaves the id \<^verbatim>\<open>undefined\<close>. \<open>resolvePersons\<close> runs the cast block, then
  the director block.
\<close>

definition resolvePerson ::
    "upstream \<Rightarrow> string \<Rightarrow> string option \<Rightarrow> int \<Rightarrow> world \<Rightarrow> int option stage \<times> world" where
  "resolvePerson up field name pageNum w =
     (if \<not> truthy name then (Proceed None, w)
      else
        (let trimmed = trim (the name) in
         if length trimmed > 100 then (Respond (NameTooLong field), w)
         else
           (case tmdbFetch up ''/search/person''
                   [(''query'', PStr trimmed), (''include_adult'', PBool False)] w of
              (None, w1) \<Rightarrow> (Thrown, w1)
            | (Some personSearch, w1) \<Rightarrow>
                (case results personSearch of
                   None \<Rightarrow> (Respond (SearchResult [] 0 0 pageNum), w1)
                 | Some [] \<Rightarrow> (Respond (SearchResult [] 0 0 pageNum), w1)
                 | Some (p # _) \<Rightarrow> (Proceed (Some (item_id p)), w1)))))"

definition resolvePersons ::
    "upstream \<Rightarrow> request \<Rightarrow> int \<Rightarrow> world \<Rightarrow> (int option \<times> int option) stage \<times> world" where
  "resolvePersons up r pageNum w =
     (case resolvePerson up ''cast'' (cast r) pageNum w of
        (Respond x, w1) \<Rightarrow> (Respond x, w1)
      | (Thrown, w1) \<Rightarrow> (Thrown, w1)
      | (Proceed castId, w1) \<Rightarrow>
          (case resolvePerson up ''director'' (director r) pageNum w1 of
             (Respond x, w2) \<Rightarrow> (Respond x, w2)
           | (Thrown, w2) \<Rightarrow> (Thrown, w2)
           | (Proceed directorId, w2) \<Rightarrow> (Proceed (castId, directorId), w2)))"

text \<open>Line 200.\<close>

definition useDiscover :: "request \<Rightarrow> int option \<Rightarrow> int option \<Rightarrow> bool" where
  "useDiscover r castId directorId =
     (truthy (genre r) \<or> truthy_id castId \<or> truthy_id directorId \<or>
      (truthy (year r) \<and> \<not> truthy (query r)))"

text \<open>The parameters of a title search, lines 204-205 (those of the fallback, lines 223-224,
  are the same), for a defined query; and the parameters of the discovery, lines 209-218.\<close>

definition titleParams :: "string \<Rightarrow> int \<Rightarrow> string option \<Rightarrow> params" where
  "titleParams q pageNum yr =
     (let params = [(''query'', PStr (trim q)), (''page'', PNum pageNum),
                    (''include_adult'', PBool False)];
          params = (if truthy yr then params @ [(''primary_release_year'', PStr (the yr))]
                    else params)
      in params)"

definition discoverParams :: "request \<Rightarrow> int \<Rightarrow> int option \<Rightarrow> int option \<Rightarrow> params" where
  "discoverParams r pageNum castId directorId =
     (let params = [(''page'', PNum pageNum), (''include_adult'', PBool False),
                    (''sort_by'', PStr ''popularity.desc'')];
          params = (if truthy (query r)
                    then params @ [(''with_keywords'', PStr (trim (the (query r))))] else params);
          params = (if truthy (year r)
                    then params @ [(''primary_release_year'', PStr (the (year r)))] else params);
          params = (if truthy (genre r)
                    then params @ [(''with_genres'', PStr (the (genre r)))] else params);
          params = (if truthy_id castId
                    then params @ [(''with_cast'', PStr (String_of_int (the castId)))] else params);
          params = (if truthy_id directorId
                    then params @ [(''with_crew'', PStr (String_of_int (the directorId)))]
                    else params)
      in params)"

text \<open>\<^verbatim>\<open>!data.results || data.results.length === 0\<close>\<close>

definition noResults :: "doc \<Rightarrow> bool" where
  "noResults d = (case results d of None \<Rightarrow> True | Some xs \<Rightarrow> xs = [])"

text \<open>
  The strategy section, lines 198-227. On the title branch \<^verbatim>\<open>query.trim()\<close> throws a
  TypeError when \<^verbatim>\<open>query\<close> is \<^verbatim>\<open>undefined\<close>.
\<close>

definition strategy ::
    "upstream \<Rightarrow> request \<Rightarrow> int \<Rightarrow> int option \<Rightarrow> int option \<Rightarrow> world \<Rightarrow> doc option \<times> world" where
  "strategy up r pageNum castId directorId w =
     (if \<not> useDiscover r castId directorId then
        (case query r of
           None \<Rightarrow> (None, w)
         | Some q \<Rightarrow> tmdbFetch up ''/search/movie'' (titleParams q pageNum (year r)) w)
      else
        (case tmdbFetch up ''/discover/movie'' (discoverParams r pageNum castId directorId) w of
           (None, w1) \<Rightarrow> (None, w1)
         | (Some data, w1) \<Rightarrow>
             if truthy (query r) \<and> noResults data
             then tmdbFetch up ''/search/movie'' (titleParams (the (query r)) pageNum (year r)) w1
             else (Some data, w1)))"

text \<open>The final \<^verbatim>\<open>res.json\<close>, lines 229-234: \<^verbatim>\<open>data.results || []\<close>,
  \<^verbatim>\<open>data.total_results || 0\<close>, \<^verbatim>\<open>data.total_pages || 0\<close> and the page number.\<close>

definition respond :: "doc \<Rightarrow> int \<Rightarrow> response" where
  "respond data pageNum =
     SearchResult (case results data of None \<Rightarrow> [] | Some xs \<Rightarrow> xs)
                  (case total_results data of None \<Rightarrow> 0 | Some n \<Rightarrow> n)
                  (case total_pages data of None \<Rightarrow> 0 | Some n \<Rightarrow> n)
                  pageNum"

text \<open>The handler, lines 134-239: its sections in order; the \<^verbatim>\<open>catch\<close> turns any exception
  into 502.\<close>

definition search ::
    "(string \<Rightarrow> int option) \<Rightarrow> int \<Rightarrow> upstream \<Rightarrow> request \<Rightarrow> world \<Rightarrow> response \<times> world" where
  "search num currentYear up r w =
     (case validate num currentYear r of
        Inl e \<Rightarrow> (e, w)
      | Inr pageNum \<Rightarrow>
          (case resolvePersons up r pageNum w of
             (Respond x, w1) \<Rightarrow> (x, w1)
           | (Thrown, w1) \<Rightarrow> (UpstreamUnavailable, w1)
           | (Proceed (castId, directorId), w1) \<Rightarrow>
               (case strategy up r pageNum castId directorId w1 of
                  (None, w2) \<Rightarrow> (UpstreamUnavailable, w2)
                | (Some data, w2) \<Rightarrow> (respond data pageNum, w2))))"

subsection \<open>Abuse control\<close>

text \<open>The options the source passes to \<^verbatim>\<open>slowDown\<close> and \<^verbatim>\<open>rateLimit\<close>, lines 41-56
  (\<open>maxHits\<close> is the option \<^verbatim>\<open>max\<close>).\<close>

definition windowMs :: nat where
  "windowMs = 60 * 1000"

definition delayAfter :: nat where
  "delayAfter = 30"

definition delayMs :: "int \<Rightarrow> int" where
  "delayMs hits = (hits - 30) * 500"

definition maxHits :: nat where
  "maxHits = 40"

text \<open>
  The state of the limiters: for each client address the times of its requests in the
  trailing window. A verdict is a rejection with the count and the time to the window's reset
  as hint, or an admission after a delay in milliseconds.
\<close>

type_synonym windows = "string \<Rightarrow> nat list"

datatype verdict = RateLimited nat nat | Admitted int

text \<open>Modelled from the spec: the counting of \<^verbatim>\<open>express-slow-down\<close> and
  \<^verbatim>\<open>express-rate-limit\<close> is library code outside the repository. Following the spec
  (section 4.5 and ClientWindow), one observation per client address is shared by both
  limiters: the requests of the trailing 60 seconds, the arriving one included, rejected or
  not.\<close>

definition observe :: "windows \<Rightarrow> string \<Rightarrow> nat \<Rightarrow> nat list" where
  "observe ws addr now = filter (\<lambda>t. now < t + windowMs) (ws addr) @ [now]"

text \<open>Modelled from the spec: what the two middlewares do with the count is library code
  outside the repository. Following section 4.5, the delay governor holds a request whose
  count exceeds \<open>delayAfter\<close> for \<open>delayMs count\<close> milliseconds, under the ceiling of the
  hard limiter, which rejects a request whose count exceeds \<open>maxHits\<close>. With
  \<^verbatim>\<open>NODE_ENV\<close> equal to \<^verbatim>\<open>test\<close> neither limiter is mounted (lines 58-62).\<close>

definition abuseControl :: "bool \<Rightarrow> windows \<Rightarrow> string \<Rightarrow> nat \<Rightarrow> verdict \<times> windows" where
  "abuseControl testEnv ws addr now =
     (if testEnv then (Admitted 0, ws)
      else
        (let seen = observe ws addr now;
             hits = length seen;
             delay = (if hits > delayAfter then delayMs (int hits) else 0)
         in (if hits > maxHits then RateLimited hits (hd seen + windowMs - now)
             else Admitted delay,
             ws(addr := seen))))"

text \<open>A client's requests, served one after the other at the given times.\<close>

fun serve :: "bool \<Rightarrow> windows \<Rightarrow> string \<Rightarrow> nat list \<Rightarrow> verdict list" where
  "serve testEnv ws addr [] = []"
| "serve testEnv ws addr (t # ts) =
     (let (v, ws') = abuseControl testEnv ws addr t in v # serve testEnv ws' addr ts)"

subsection \<open>Fixtures for concrete runs\<close>

text \<open>A world with an empty cache, and providers in the manner of the integration tests:
  \<open>mockUpstream\<close> has one person for every person search, one movie for every title search
  and nothing from discovery; \<open>emptyUpstream\<close> has nothing at all; with \<open>downUpstream\<close>
  every call throws when the 8-second timeout has run out.\<close>

definition freshWorld :: world where
  "freshWorld = \<lparr>cache = Map.empty, clock = 0, fetched = [], sent = []\<rparr>"

definition downUpstream :: upstream where
  "downUpstream t path ps = (8000, None)"

definition PERSON_RESULTS :: doc where
  "PERSON_RESULTS =
     \<lparr>results = Some [Item 525 ''Christopher Nolan''], total_results = None, total_pages = None\<rparr>"

definition MOVIE_LIST :: doc where
  "MOVIE_LIST = \<lparr>results = Some [Item 27205 ''Inception''], total_results = Some 1, total_pages = Some 1\<rparr>"

definition EMPTY_MOVIE_LIST :: doc where
  "EMPTY_MOVIE_LIST = \<lparr>results = Some [], total_results = Some 0, total_pages = Some 0\<rparr>"

definition mockUpstream :: upstream where
  "mockUpstream t path ps =
     (if path = ''/search/person'' then (120, Some PERSON_RESULTS)
      else if path = ''/search/movie'' then (150, Some MOVIE_LIST)
      else (200, Some EMPTY_MOVIE_LIST))"

definition emptyUpstream :: upstream where
  "emptyUpstream t path ps = (100, Some EMPTY_MOVIE_LIST)"

definition noRequest :: request where
  "noRequest = \<lparr>query = None, year = None, genre = None, cast = None, director = None, page = None\<rparr>"

subsection \<open>A predicate on caches\<close>

text \<open>Every entry of the cache lives at least until the time \<open>T\<close>.\<close>

definition entriesUntil :: "nat \<Rightarrow> world \<Rightarrow> bool" where
  "entriesUntil T w = (\<forall>k v e. cache w k = Some (v, e) \<longrightarrow> T \<le> e)"

section \<open>Properties\<close>

subsection \<open>Shared facts about the client and the handler's sections\<close>

lemma tmdbFetch_fetched:
  "fetched (snd (tmdbFetch up path ps w)) = fetched w @ [(path, ps)]"
  by (simp add: tmdbFetch_def Let_def split: option.split prod.split)

lemma trim_whitespace:
  assumes "list_all isWhiteSpace q"
  shows "trim q = []"
proof -
  from assms have h: "dropWhile isWhiteSpace q = []"
    by (induction q) auto
  show ?thesis unfolding trim_def h by simp
qed

lemma search_validate_Inl:
  "validate num cy r = Inl e \<Longrightarrow> search num cy up r w = (e, w)"
  by (simp add: search_def)

lemma validate_criteria:
  assumes "truthy (query r) \<or> truthy (year r) \<or> truthy (genre r) \<or> truthy (cast r) \<or>
           truthy (director r)"
  shows "validate num cy r =
     (if (case year r of
            None \<Rightarrow> False
          | Some s \<Rightarrow> (case num s of None \<Rightarrow> True | Some y \<Rightarrow> y < 1880 \<or> y > cy + 5))
      then Inl InvalidYear
      else
        (case num (case page r of None \<Rightarrow> ''1'' | Some s \<Rightarrow> s) of
           None \<Rightarrow> Inl InvalidPage
         | Some pageNum \<Rightarrow>
             if pageNum < 1 \<or> pageNum > 500 then Inl InvalidPage
             else if (case genre r of
                        None \<Rightarrow> False
                      | Some g \<Rightarrow> \<not> (g \<noteq> [] \<and> list_all isDigit g))
             then Inl InvalidGenre
             else Inr pageNum))"
proof -
  from assms have "\<not> (\<not> truthy (query r) \<and> \<not> truthy (year r) \<and> \<not> truthy (genre r) \<and>
      \<not> truthy (cast r) \<and> \<not> truthy (director r))"
    by blast
  then show ?thesis unfolding validate_def by (rule if_not_P)
qed

lemma validate_Inl_cases:
  assumes "validate num cy r = Inl e"
  shows "e = MissingCriteria \<or> e = InvalidYear \<or> e = InvalidPage \<or> e = InvalidGenre"
proof (cases "truthy (query r) \<or> truthy (year r) \<or> truthy (genre r) \<or> truthy (cast r) \<or>
    truthy (director r)")
  case True
  from assms show ?thesis
    unfolding validate_criteria [OF True] by (simp split: if_splits option.splits)
next
  case False
  with assms show ?thesis by (simp add: validate_def)
qed

lemma validate_not_MissingCriteria:
  assumes "truthy (query r) \<or> truthy (year r) \<or> truthy (genre r) \<or> truthy (cast r) \<or>
           truthy (director r)"
  shows "validate num cy r \<noteq> Inl MissingCriteria"
  unfolding validate_criteria [OF assms]
  by (simp add: MissingCriteria_def InvalidYear_def InvalidPage_def InvalidGenre_def
      split: option.split)

lemma resolvePerson_falsy:
  "\<not> truthy name \<Longrightarrow> resolvePerson up field name p w = (Proceed None, w)"
  by (simp add: resolvePerson_def)

lemma resolvePerson_Respond:
  assumes "resolvePerson up field name p w = (Respond x, w')"
  shows "(x = NameTooLong field \<and> w' = w) \<or> x = SearchResult [] 0 0 p"
  using assms unfolding resolvePerson_def Let_def
  by (auto split: if_splits option.splits prod.splits list.splits)

lemma resolvePersons_falsy:
  "\<not> truthy (cast r) \<Longrightarrow> \<not> truthy (director r) \<Longrightarrow>
     resolvePersons up r p w = (Proceed (None, None), w)"
  by (simp add: resolvePersons_def resolvePerson_falsy)

lemma resolvePersons_Respond:
  assumes "resolvePersons up r p w = (Respond x, w')"
  shows "x = NameTooLong ''cast'' \<or> x = NameTooLong ''director'' \<or> x = SearchResult [] 0 0 p"
proof (cases "resolvePerson up ''cast'' (cast r) p w")
  case (Pair o1 w1)
  show ?thesis
  proof (cases o1)
    case (Respond y)
    with Pair assms have "x = y" by (simp add: resolvePersons_def)
    with Pair Respond resolvePerson_Respond show ?thesis by blast
  next
    case Thrown
    with Pair assms show ?thesis by (simp add: resolvePersons_def)
  next
    case (Proceed castId)
    show ?thesis
    proof (cases "resolvePerson up ''director'' (director r) p w1")
      case (Pair o2 w2)
      with \<open>resolvePerson up ''cast'' (cast r) p w = (o1, w1)\<close> Proceed assms
      have "o2 = Respond x" by (cases o2) (simp_all add: resolvePersons_def)
      with Pair resolvePerson_Respond show ?thesis by blast
    qed
  qed
qed

lemma search_validate_Inr:
  assumes "validate num cy r = Inr p"
  shows "fst (search num cy up r w) = NameTooLong ''cast'' \<or>
         fst (search num cy up r w) = NameTooLong ''director'' \<or>
         fst (search num cy up r w) = UpstreamUnavailable \<or>
         (\<exists>rs tr tp. fst (search num cy up r w) = SearchResult rs tr tp p)"
proof (cases "resolvePersons up r p w")
  case (Pair o1 w1)
  show ?thesis
  proof (cases o1)
    case (Respond x)
    with Pair assms have "fst (search num cy up r w) = x" by (simp add: search_def)
    with resolvePersons_Respond [of up r p w x w1] Pair Respond show ?thesis by auto
  next
    case Thrown
    with Pair assms show ?thesis by (simp add: search_def)
  next
    case (Proceed ids)
    obtain castId directorId where ids: "ids = (castId, directorId)" by (cases ids)
    obtain d w2 where s: "strategy up r p castId directorId w1 = (d, w2)"
      by (cases "strategy up r p castId directorId w1")
    with Pair Proceed ids assms show ?thesis
      by (cases d) (simp_all add: search_def respond_def)
  qed
qed

lemma search_strategy:
  assumes "validate num cy r = Inr p"
    and "resolvePersons up r p w = (Proceed (castId, directorId), w1)"
    and "strategy up r p castId directorId w1 = (out, w2)"
  shows "search num cy up r w =
           (case out of None \<Rightarrow> UpstreamUnavailable | Some data \<Rightarrow> respond data p, w2)"
  using assms by (simp add: search_def split: option.split)

lemma search_fetched_strategy:
  assumes "validate num cy r = Inr p"
    and "resolvePersons up r p w = (Proceed (castId, directorId), w1)"
  shows "fetched (snd (search num cy up r w)) =
           fetched (snd (strategy up r p castId directorId w1))"
  using assms by (simp add: search_def split: prod.split option.split)

subsection \<open>Validation\<close>

text \<open>
  Claim C9. A request in which none of query, year, genre, cast and director is present
  (each is undefined or the empty string) is answered with MissingCriteria, whatever its
  page, and the world is left as it was: nothing is fetched, nothing is sent upstream and
  the cache is not touched.
\<close>

theorem missing_criteria:
  assumes "\<not> truthy (query r)" "\<not> truthy (year r)" "\<not> truthy (genre r)"
    "\<not> truthy (cast r)" "\<not> truthy (director r)"
  shows "search num cy up r w = (MissingCriteria, w)"
proof -
  from assms have "validate num cy r = Inl MissingCriteria"
    by (simp add: validate_def)
  then show ?thesis by (rule search_validate_Inl)
qed

theorem missing_criteria_witness:
  "search Number_digits 2026 mockUpstream (noRequest\<lparr>cast := Some [], page := Some ''7''\<rparr>)
     freshWorld = (MissingCriteria, freshWorld)"
  using missing_criteria [of "noRequest\<lparr>cast := Some [], page := Some ''7''\<rparr>"
      Number_digits 2026 mockUpstream freshWorld]
  by (simp add: truthy_def noRequest_def)

text \<open>
  Claim C10. A request whose query is a non-empty string of white space only, with no other
  search field, is not rejected with MissingCriteria: the criteria check looks at the
  untrimmed string. When its page is valid the handler goes on to the title search and calls
  it with the trimmed, that is empty, query; this is the only fetch of the request.
\<close>

theorem whitespace_query:
  assumes "query r = Some q" "q \<noteq> []" "list_all isWhiteSpace q"
    and "year r = None" "genre r = None" "cast r = None" "director r = None"
  shows "fst (search num cy up r w) \<noteq> MissingCriteria \<and>
         (\<forall>p. num (case page r of None \<Rightarrow> ''1'' | Some s \<Rightarrow> s) = Some p \<and> 1 \<le> p \<and> p \<le> 500 \<longrightarrow>
            fetched (snd (search num cy up r w)) =
              fetched w @ [(''/search/movie'',
                            [(''query'', PStr []), (''page'', PNum p),
                             (''include_adult'', PBool False)])])"
proof
  from assms(1,2) have t: "truthy (query r)" by (simp add: truthy_def)
  show "fst (search num cy up r w) \<noteq> MissingCriteria"
  proof (cases "validate num cy r")
    case (Inl e)
    with validate_not_MissingCriteria [of r num cy] t have "e \<noteq> MissingCriteria" by auto
    with Inl show ?thesis by (simp add: search_validate_Inl)
  next
    case (Inr p)
    from search_validate_Inr [OF Inr, of up w] show ?thesis
      by (auto simp: MissingCriteria_def NameTooLong_def UpstreamUnavailable_def)
  qed
  show "\<forall>p. num (case page r of None \<Rightarrow> ''1'' | Some s \<Rightarrow> s) = Some p \<and> 1 \<le> p \<and> p \<le> 500 \<longrightarrow>
            fetched (snd (search num cy up r w)) =
              fetched w @ [(''/search/movie'',
                            [(''query'', PStr []), (''page'', PNum p),
                             (''include_adult'', PBool False)])]"
  proof (intro allI impI)
    fix p
    assume p: "num (case page r of None \<Rightarrow> ''1'' | Some s \<Rightarrow> s) = Some p \<and> 1 \<le> p \<and> p \<le> 500"
    have v: "validate num cy r = Inr p"
      using assms p by (simp add: validate_def truthy_def)
    have rp: "resolvePersons up r p w = (Proceed (None, None), w)"
      using assms by (simp add: resolvePersons_falsy truthy_def)
    have nd: "\<not> useDiscover r None None"
      using assms by (simp add: useDiscover_def truthy_def truthy_id_def)
    have tp: "titleParams q p (year r) =
        [(''query'', PStr []), (''page'', PNum p), (''include_adult'', PBool False)]"
      using assms by (simp add: titleParams_def truthy_def trim_whitespace)
    have st: "strategy up r p None None w =
        tmdbFetch up ''/search/movie''
          [(''query'', PStr []), (''page'', PNum p), (''include_adult'', PBool False)] w"
      using nd assms(1) tp by (simp add: strategy_def)
    have "fetched (snd (search num cy up r w)) = fetched (snd (strategy up r p None None w))"
      using v rp by (rule search_fetched_strategy)
    then show "fetched (snd (search num cy up r w)) =
        fetched w @ [(''/search/movie'',
                      [(''query'', PStr []), (''page'', PNum p), (''include_adult'', PBool False)])]"
      by (simp add: st tmdbFetch_fetched)
  qed
qed

theorem whitespace_query_witness:
  "fst (search Number_digits 2026 mockUpstream (noRequest\<lparr>query := Some ''   ''\<rparr>) freshWorld)
     \<noteq> MissingCriteria \<and>
   fetched (snd (search Number_digits 2026 mockUpstream (noRequest\<lparr>query := Some ''   ''\<rparr>)
                   freshWorld)) =
     [(''/search/movie'',
       [(''query'', PStr []), (''page'', PNum 1), (''include_adult'', PBool False)])]"
  using whitespace_query [of "noRequest\<lparr>query := Some ''   ''\<rparr>" "''   ''" Number_digits
      2026 mockUpstream freshWorld]
  by (simp add: noRequest_def freshWorld_def isWhiteSpace_def Number_digits_def isDigit_def)

text \<open>
  Claim C8. For a request that supplies a year and passes the criteria check, the answer is
  InvalidYear exactly when the year is not an integer between 1880 and the current year plus
  five, whatever the other fields are. In particular the two bounds themselves are not
  rejected (the current year being at least 1875, so that the interval is not empty).
\<close>

theorem year_validation:
  assumes "year r = Some s"
    and "truthy (query r) \<or> truthy (year r) \<or> truthy (genre r) \<or> truthy (cast r) \<or>
         truthy (director r)"
  shows "((fst (search num cy up r w) = InvalidYear) =
            (\<not> (\<exists>y. num s = Some y \<and> 1880 \<le> y \<and> y \<le> cy + 5))) \<and>
         (1875 \<le> cy \<and> (num s = Some 1880 \<or> num s = Some (cy + 5)) \<longrightarrow>
            fst (search num cy up r w) \<noteq> InvalidYear)"
proof -
  have main: "(fst (search num cy up r w) = InvalidYear) =
      (\<not> (\<exists>y. num s = Some y \<and> 1880 \<le> y \<and> y \<le> cy + 5))"
  proof (cases "validate num cy r")
    case (Inl e)
    then have e: "fst (search num cy up r w) = e" by (simp add: search_validate_Inl)
    show ?thesis
    proof (cases "\<exists>y. num s = Some y \<and> 1880 \<le> y \<and> y \<le> cy + 5")
      case True
      then obtain y where "num s = Some y" "1880 \<le> y" "y \<le> cy + 5" by blast
      with Inl assms(1) have "e = InvalidPage \<or> e = InvalidGenre"
        by (simp add: validate_criteria [OF assms(2)] split: if_splits option.splits)
      then have "e \<noteq> InvalidYear"
        by (auto simp: InvalidYear_def InvalidPage_def InvalidGenre_def)
      with True e show ?thesis by simp
    next
      case False
      then have "case num s of None \<Rightarrow> True | Some y \<Rightarrow> y < 1880 \<or> y > cy + 5"
        by (cases "num s") auto
      with Inl assms(1) have "e = InvalidYear"
        by (simp add: validate_criteria [OF assms(2)])
      with False e show ?thesis by simp
    qed
  next
    case (Inr p)
    from search_validate_Inr [OF Inr, of up w]
    have n: "fst (search num cy up r w) \<noteq> InvalidYear"
      by (auto simp: InvalidYear_def NameTooLong_def UpstreamUnavailable_def)
    have "\<exists>y. num s = Some y \<and> 1880 \<le> y \<and> y \<le> cy + 5"
    proof (cases "num s")
      case None
      with Inr assms(1) show ?thesis by (simp add: validate_def split: if_splits)
    next
      case (Some y)
      with Inr assms(1) show ?thesis by (simp add: validate_def split: if_splits)
    qed
    with n show ?thesis by simp
  qed
  then show ?thesis by auto
qed

theorem year_validation_witness:
  "fst (search Number_digits 2026 mockUpstream (noRequest\<lparr>year := Some ''1879''\<rparr>) freshWorld)
     = InvalidYear \<and>
   fst (search Number_digits 2026 mockUpstream (noRequest\<lparr>year := Some ''1880''\<rparr>) freshWorld)
     \<noteq> InvalidYear \<and>
   fst (search Number_digits 2026 mockUpstream (noRequest\<lparr>year := Some ''2031''\<rparr>) freshWorld)
     \<noteq> InvalidYear \<and>
   fst (search Number_digits 2026 mockUpstream (noRequest\<lparr>year := Some ''2032''\<rparr>) freshWorld)
     = InvalidYear"
  using year_validation [of "noRequest\<lparr>year := Some ''1879''\<rparr>" "''1879''" Number_digits 2026
      mockUpstream freshWorld]
    year_validation [of "noRequest\<lparr>year := Some ''1880''\<rparr>" "''1880''" Number_digits 2026
      mockUpstream freshWorld]
    year_validation [of "noRequest\<lparr>year := Some ''2031''\<rparr>" "''2031''" Number_digits 2026
      mockUpstream freshWorld]
    year_validation [of "noRequest\<lparr>year := Some ''2032''\<rparr>" "''2032''" Number_digits 2026
      mockUpstream freshWorld]
  by (simp add: noRequest_def truthy_def Number_digits_def isDigit_def)

subsection \<open>Name resolution\<close>

lemma resolvePerson_empty:
  assumes "truthy name" "length (trim (the name)) \<le> 100"
    and "tmdbFetch up ''/search/person''
           [(''query'', PStr (trim (the name))), (''include_adult'', PBool False)] w = (Some d, w1)"
    and "noResults d"
  shows "resolvePerson up field name p w = (Respond (SearchResult [] 0 0 p), w1)"
  using assms unfolding resolvePerson_def Let_def noResults_def
  by (simp split: option.splits list.splits)

lemma validate_page:
  assumes "validate num cy r = Inr p"
  shows "num (case page r of None \<Rightarrow> ''1'' | Some s \<Rightarrow> s) = Some p \<and> 1 \<le> p \<and> p \<le> 500"
proof (cases "truthy (query r) \<or> truthy (year r) \<or> truthy (genre r) \<or> truthy (cast r) \<or>
    truthy (director r)")
  case True
  from assms show ?thesis
    unfolding validate_criteria [OF True] by (simp split: if_splits option.splits)
next
  case False
  with assms show ?thesis by (simp add: validate_def)
qed

text \<open>
  Claim C3. For a validated request with a cast name (of trimmed length at most 100) whose
  person search returns a document without results, the handler answers with the success
  \<open>SearchResult [] 0 0 p\<close>, where \<open>p\<close> is the number of the requested page. The same
  holds for the director name, once the cast block has let the request through.
\<close>

theorem unresolved_person_is_empty_success:
  "(validate num cy r = Inr p \<and> truthy (cast r) \<and> length (trim (the (cast r))) \<le> 100 \<and>
    tmdbFetch up ''/search/person''
      [(''query'', PStr (trim (the (cast r)))), (''include_adult'', PBool False)] w = (Some d, w1) \<and>
    noResults d
    \<longrightarrow> search num cy up r w = (SearchResult [] 0 0 p, w1) \<and>
        num (case page r of None \<Rightarrow> ''1'' | Some s \<Rightarrow> s) = Some p) \<and>
   (validate num cy r = Inr p \<and> resolvePerson up ''cast'' (cast r) p w = (Proceed castId, w1) \<and>
    truthy (director r) \<and> length (trim (the (director r))) \<le> 100 \<and>
    tmdbFetch up ''/search/person''
      [(''query'', PStr (trim (the (director r)))), (''include_adult'', PBool False)] w1 = (Some d', w2) \<and>
    noResults d'
    \<longrightarrow> search num cy up r w = (SearchResult [] 0 0 p, w2) \<and>
        num (case page r of None \<Rightarrow> ''1'' | Some s \<Rightarrow> s) = Some p)"
proof (intro conjI impI)
  assume a: "validate num cy r = Inr p \<and> truthy (cast r) \<and> length (trim (the (cast r))) \<le> 100 \<and>
    tmdbFetch up ''/search/person''
      [(''query'', PStr (trim (the (cast r)))), (''include_adult'', PBool False)] w = (Some d, w1) \<and>
    noResults d"
  then have "resolvePerson up ''cast'' (cast r) p w = (Respond (SearchResult [] 0 0 p), w1)"
    by (simp add: resolvePerson_empty)
  then have "resolvePersons up r p w = (Respond (SearchResult [] 0 0 p), w1)"
    by (simp add: resolvePersons_def)
  with a show "search num cy up r w = (SearchResult [] 0 0 p, w1)"
    by (simp add: search_def)
  from a validate_page [of num cy r p]
  show "num (case page r of None \<Rightarrow> ''1'' | Some s \<Rightarrow> s) = Some p"
    by blast
next
  assume a: "validate num cy r = Inr p \<and> resolvePerson up ''cast'' (cast r) p w = (Proceed castId, w1) \<and>
    truthy (director r) \<and> length (trim (the (director r))) \<le> 100 \<and>
    tmdbFetch up ''/search/person''
      [(''query'', PStr (trim (the (director r)))), (''include_adult'', PBool False)] w1 = (Some d', w2) \<and>
    noResults d'"
  then have "resolvePerson up ''director'' (director r) p w1 = (Respond (SearchResult [] 0 0 p), w2)"
    by (simp add: resolvePerson_empty)
  with a have "resolvePersons up r p w = (Respond (SearchResult [] 0 0 p), w2)"
    by (simp add: resolvePersons_def)
  with a show "search num cy up r w = (SearchResult [] 0 0 p, w2)"
    by (simp add: search_def)
  from a validate_page [of num cy r p]
  show "num (case page r of None \<Rightarrow> ''1'' | Some s \<Rightarrow> s) = Some p"
    by blast
qed


theorem unresolved_person_is_empty_success_witness:
  "search Number_digits 2026 emptyUpstream (noRequest\<lparr>cast := Some '' Nobody '', page := Some ''3''\<rparr>)
     freshWorld =
     (SearchResult [] 0 0 3,
      \<lparr>cache = [cacheKey ''/search/person''
                   [(''query'', PStr ''Nobody''), (''include_adult'', PBool False)]
                 \<mapsto> (EMPTY_MOVIE_LIST, 600100)],
       clock = 100,
       fetched = [(''/search/person'', [(''query'', PStr ''Nobody''), (''include_adult'', PBool False)])],
       sent = [(''/search/person'', [(''query'', PStr ''Nobody''), (''include_adult'', PBool False)])]\<rparr>) \<and>
   fst (search Number_digits 2026 emptyUpstream
          (noRequest\<lparr>director := Some ''Nobody'', genre := Some ''28''\<rparr>) freshWorld) =
     SearchResult [] 0 0 1"
proof -
  let ?r = "noRequest\<lparr>cast := Some '' Nobody '', page := Some ''3''\<rparr>"
  let ?ps = "[(''query'', PStr ''Nobody''), (''include_adult'', PBool False)]"
  let ?w1 = "\<lparr>cache = [cacheKey ''/search/person'' ?ps \<mapsto> (EMPTY_MOVIE_LIST, 600100)],
       clock = 100, fetched = [(''/search/person'', ?ps)], sent = [(''/search/person'', ?ps)]\<rparr>"
  have t: "trim '' Nobody '' = ''Nobody''"
    by (simp add: trim_def isWhiteSpace_def)
  have v: "validate Number_digits 2026 ?r = Inr 3"
    by (simp add: validate_def noRequest_def truthy_def Number_digits_def isDigit_def)
  have f: "tmdbFetch emptyUpstream ''/search/person'' ?ps freshWorld = (Some EMPTY_MOVIE_LIST, ?w1)"
    by (simp add: tmdbFetch_def freshWorld_def cache_get_def cache_set_def emptyUpstream_def
        CACHE_TTL_SECONDS_def)
  have n: "noResults EMPTY_MOVIE_LIST"
    by (simp add: noResults_def EMPTY_MOVIE_LIST_def)
  let ?r' = "noRequest\<lparr>director := Some ''Nobody'', genre := Some ''28''\<rparr>"
  have t': "trim ''Nobody'' = ''Nobody''"
    by (simp add: trim_def isWhiteSpace_def)
  have v': "validate Number_digits 2026 ?r' = Inr 1"
    by (simp add: validate_def noRequest_def truthy_def Number_digits_def isDigit_def)
  have c': "resolvePerson emptyUpstream ''cast'' (cast ?r') 1 freshWorld = (Proceed None, freshWorld)"
    by (simp add: resolvePerson_falsy noRequest_def truthy_def)
  from unresolved_person_is_empty_success
    [of Number_digits 2026 ?r 3 emptyUpstream freshWorld EMPTY_MOVIE_LIST ?w1]
    v f n t
  have 1: "search Number_digits 2026 emptyUpstream ?r freshWorld = (SearchResult [] 0 0 3, ?w1)"
    by (simp add: noRequest_def truthy_def)
  from unresolved_person_is_empty_success
    [of Number_digits 2026 ?r' 1 emptyUpstream freshWorld _ freshWorld None EMPTY_MOVIE_LIST ?w1]
    v' f n t' c'
  have 2: "search Number_digits 2026 emptyUpstream ?r' freshWorld = (SearchResult [] 0 0 1, ?w1)"
    by (simp add: noRequest_def truthy_def)
  from 1 2 show ?thesis by simp
qed

lemma resolvePerson_Proceed:
  assumes "resolvePerson up field name p w = (Proceed i, w')"
  shows "if truthy name
         then fetched w' = fetched w @ [(''/search/person'',
                [(''query'', PStr (trim (the name))), (''include_adult'', PBool False)])]
         else w' = w"
proof (cases "truthy name")
  case False
  with assms show ?thesis by (simp add: resolvePerson_falsy)
next
  case True
  let ?ps = "[(''query'', PStr (trim (the name))), (''include_adult'', PBool False)]"
  obtain out w1 where f: "tmdbFetch up ''/search/person'' ?ps w = (out, w1)"
    by (cases "tmdbFetch up ''/search/person'' ?ps w")
  from assms True f have "w' = w1"
    unfolding resolvePerson_def Let_def
    by (simp split: if_splits option.splits list.splits)
  moreover from tmdbFetch_fetched [of up "''/search/person''" ?ps w] f
  have "fetched w1 = fetched w @ [(''/search/person'', ?ps)]" by simp
  ultimately show ?thesis using True by simp
qed

lemma search_Status_400:
  assumes "validate num cy r = Inr p" and "fst (search num cy up r w) = Status 400 m"
  shows "resolvePersons up r p w = (Respond (Status 400 m), snd (search num cy up r w))"
proof (cases "resolvePersons up r p w")
  case (Pair o1 w1)
  show ?thesis
  proof (cases o1)
    case (Respond x)
    with Pair assms show ?thesis by (simp add: search_def)
  next
    case Thrown
    with Pair assms show ?thesis by (simp add: search_def UpstreamUnavailable_def)
  next
    case (Proceed ids)
    obtain castId directorId where ids: "ids = (castId, directorId)" by (cases ids)
    obtain d w2 where s: "strategy up r p castId directorId w1 = (d, w2)"
      by (cases "strategy up r p castId directorId w1")
    with Pair Proceed ids assms show ?thesis
      by (cases d) (simp_all add: search_def respond_def UpstreamUnavailable_def)
  qed
qed

lemma NameTooLong_distinct:
  "NameTooLong ''cast'' \<noteq> NameTooLong ''director''"
  "NameTooLong ''cast'' \<noteq> SearchResult rs tr tp p"
  "NameTooLong ''director'' \<noteq> SearchResult rs tr tp p"
  "NameTooLong ''cast'' = Status 400 ''cast parameter too long.''"
  "NameTooLong ''director'' = Status 400 ''director parameter too long.''"
  by (simp_all add: NameTooLong_def)

lemma resolvePersons_cast_TooLong:
  assumes "resolvePersons up r p w = (Respond (NameTooLong ''cast''), w')"
  shows "w' = w"
proof (cases "resolvePerson up ''cast'' (cast r) p w")
  case (Pair o1 w1)
  show ?thesis
  proof (cases o1)
    case (Respond y)
    with Pair assms have "y = NameTooLong ''cast''" "w' = w1" by (simp_all add: resolvePersons_def)
    with Pair Respond resolvePerson_Respond [of up "''cast''" "cast r" p w y w1]
    show ?thesis by (simp add: NameTooLong_distinct(2))
  next
    case Thrown
    with Pair assms show ?thesis by (simp add: resolvePersons_def)
  next
    case (Proceed castId)
    show ?thesis
    proof (cases "resolvePerson up ''director'' (director r) p w1")
      case (Pair o2 w2)
      with \<open>resolvePerson up ''cast'' (cast r) p w = (o1, w1)\<close> Proceed assms
      have "o2 = Respond (NameTooLong ''cast'')" by (cases o2) (simp_all add: resolvePersons_def)
      with Pair resolvePerson_Respond [of up "''director''" "director r" p w1 "NameTooLong ''cast''" w2]
      show ?thesis by (simp add: NameTooLong_distinct)
    qed
  qed
qed

lemma resolvePersons_director_TooLong:
  assumes "resolvePersons up r p w = (Respond (NameTooLong ''director''), w')"
  shows "if truthy (cast r)
         then fetched w' = fetched w @ [(''/search/person'',
                [(''query'', PStr (trim (the (cast r)))), (''include_adult'', PBool False)])]
         else w' = w"
proof (cases "resolvePerson up ''cast'' (cast r) p w")
  case (Pair o1 w1)
  show ?thesis
  proof (cases o1)
    case (Respond y)
    with Pair assms have "y = NameTooLong ''director''" by (simp_all add: resolvePersons_def)
    with Pair Respond resolvePerson_Respond [of up "''cast''" "cast r" p w y w1]
    show ?thesis using NameTooLong_distinct(1,3) by metis
  next
    case Thrown
    with Pair assms show ?thesis by (simp add: resolvePersons_def)
  next
    case (Proceed castId)
    show ?thesis
    proof (cases "resolvePerson up ''director'' (director r) p w1")
      case (Pair o2 w2)
      with \<open>resolvePerson up ''cast'' (cast r) p w = (o1, w1)\<close> Proceed assms
      have o2: "o2 = Respond (NameTooLong ''director'')" and w2: "w' = w2"
        by (cases o2; simp add: resolvePersons_def)+
      from Pair o2 resolvePerson_Respond [of up "''director''" "director r" p w1 "NameTooLong ''director''" w2]
      have "w2 = w1" by (simp add: NameTooLong_distinct)
      with w2 resolvePerson_Proceed [of up "''cast''" "cast r" p w castId w1]
        \<open>resolvePerson up ''cast'' (cast r) p w = (o1, w1)\<close> Proceed
      show ?thesis by simp
    qed
  qed
qed


lemma search_cast_then_long_director:
  "search Number_digits 2026 mockUpstream
     (noRequest\<lparr>cast := Some ''Tom'', director := Some (replicate 101 CHR ''b'')\<rparr>) freshWorld =
     (NameTooLong ''director'',
      \<lparr>cache = [cacheKey ''/search/person''
                   [(''query'', PStr ''Tom''), (''include_adult'', PBool False)]
                 \<mapsto> (PERSON_RESULTS, 600120)],
       clock = 120,
       fetched = [(''/search/person'', [(''query'', PStr ''Tom''), (''include_adult'', PBool False)])],
       sent = [(''/search/person'', [(''query'', PStr ''Tom''), (''include_adult'', PBool False)])]\<rparr>)"
proof -
  let ?r = "noRequest\<lparr>cast := Some ''Tom'', director := Some (replicate 101 CHR ''b'')\<rparr>"
  let ?ps = "[(''query'', PStr ''Tom''), (''include_adult'', PBool False)]"
  let ?w1 = "\<lparr>cache = [cacheKey ''/search/person'' ?ps \<mapsto> (PERSON_RESULTS, 600120)],
       clock = 120, fetched = [(''/search/person'', ?ps)], sent = [(''/search/person'', ?ps)]\<rparr>"
  have t: "trim (replicate 101 CHR ''b'') = replicate 101 CHR ''b''"
    by (simp add: trim_def isWhiteSpace_def dropWhile_replicate)
  have t': "trim ''Tom'' = ''Tom''"
    by (simp add: trim_def isWhiteSpace_def)
  have v: "validate Number_digits 2026 ?r = Inr 1"
    by (simp add: validate_def noRequest_def truthy_def Number_digits_def isDigit_def)
  have f: "tmdbFetch mockUpstream ''/search/person'' ?ps freshWorld = (Some PERSON_RESULTS, ?w1)"
    by (simp add: tmdbFetch_def freshWorld_def cache_get_def cache_set_def mockUpstream_def
        CACHE_TTL_SECONDS_def)
  have c: "resolvePerson mockUpstream ''cast'' (cast ?r) 1 freshWorld = (Proceed (Some 525), ?w1)"
    by (simp add: resolvePerson_def Let_def noRequest_def truthy_def t' f PERSON_RESULTS_def)
  have d: "resolvePerson mockUpstream ''director'' (director ?r) 1 ?w1 =
      (Respond (NameTooLong ''director''), ?w1)"
    by (simp add: resolvePerson_def noRequest_def truthy_def t)
  from c d have "resolvePersons mockUpstream ?r 1 freshWorld = (Respond (NameTooLong ''director''), ?w1)"
    by (simp add: resolvePersons_def)
  with v show ?thesis
    by (simp add: search_def)
qed

text \<open>
  Claim C4, as the code has it. MissingCriteria, InvalidYear, InvalidPage, InvalidGenre and
  the NameTooLong of the cast name are returned with the world untouched: nothing fetched,
  nothing sent upstream, the cache and the clock as they were. The NameTooLong of the
  director name leaves the world untouched when no cast name is supplied; with a cast name
  the length check of the director sits behind the cast block, and the person search
  of the cast name has been issued before the error is returned.
\<close>

theorem validation_before_upstream:
  "(fst (search num cy up r w) = MissingCriteria \<or> fst (search num cy up r w) = InvalidYear \<or>
    fst (search num cy up r w) = InvalidPage \<or> fst (search num cy up r w) = InvalidGenre \<or>
    fst (search num cy up r w) = NameTooLong ''cast''
    \<longrightarrow> snd (search num cy up r w) = w) \<and>
   (fst (search num cy up r w) = NameTooLong ''director'' \<and> \<not> truthy (cast r)
    \<longrightarrow> snd (search num cy up r w) = w) \<and>
   (fst (search num cy up r w) = NameTooLong ''director'' \<and> truthy (cast r)
    \<longrightarrow> fetched (snd (search num cy up r w)) =
          fetched w @ [(''/search/person'',
                        [(''query'', PStr (trim (the (cast r)))), (''include_adult'', PBool False)])])"
proof (cases "validate num cy r")
  case (Inl e)
  then have s: "search num cy up r w = (e, w)" by (rule search_validate_Inl)
  from validate_Inl_cases [OF Inl] have "e \<noteq> NameTooLong ''director''"
    by (auto simp: NameTooLong_def MissingCriteria_def InvalidYear_def InvalidPage_def
        InvalidGenre_def)
  with s show ?thesis by simp
next
  case (Inr p)
  let ?x = "fst (search num cy up r w)" and ?w' = "snd (search num cy up r w)"
  from search_validate_Inr [OF Inr, of up w]
  have n: "?x \<noteq> MissingCriteria" "?x \<noteq> InvalidYear" "?x \<noteq> InvalidPage" "?x \<noteq> InvalidGenre"
    by (auto simp: NameTooLong_def MissingCriteria_def InvalidYear_def InvalidPage_def
        InvalidGenre_def UpstreamUnavailable_def)
  have c: "?w' = w" if "?x = NameTooLong ''cast''"
  proof -
    from that have "?x = Status 400 ''cast parameter too long.''"
      by (simp add: NameTooLong_distinct)
    from search_Status_400 [OF Inr this]
    have "resolvePersons up r p w = (Respond (NameTooLong ''cast''), ?w')"
      by (simp add: NameTooLong_distinct)
    then show ?thesis by (rule resolvePersons_cast_TooLong)
  qed
  have d: "if truthy (cast r)
           then fetched ?w' = fetched w @ [(''/search/person'',
                  [(''query'', PStr (trim (the (cast r)))), (''include_adult'', PBool False)])]
           else ?w' = w" if "?x = NameTooLong ''director''"
  proof -
    from that have "?x = Status 400 ''director parameter too long.''"
      by (simp add: NameTooLong_distinct)
    from search_Status_400 [OF Inr this]
    have "resolvePersons up r p w = (Respond (NameTooLong ''director''), ?w')"
      by (simp add: NameTooLong_distinct)
    then show ?thesis by (rule resolvePersons_director_TooLong)
  qed
  from n c d show ?thesis by auto
qed

theorem validation_before_upstream_witness:
  "fst (search Number_digits 2026 mockUpstream
          (noRequest\<lparr>director := Some (replicate 101 CHR ''b'')\<rparr>) freshWorld) =
     NameTooLong ''director'' \<and>
   snd (search Number_digits 2026 mockUpstream
          (noRequest\<lparr>director := Some (replicate 101 CHR ''b'')\<rparr>) freshWorld) = freshWorld \<and>
   search Number_digits 2026 mockUpstream (noRequest\<lparr>genre := Some ''action''\<rparr>) freshWorld =
     (InvalidGenre, freshWorld) \<and>
   fetched (snd (search Number_digits 2026 mockUpstream
          (noRequest\<lparr>cast := Some ''Tom'', director := Some (replicate 101 CHR ''b'')\<rparr>)
          freshWorld)) =
     [(''/search/person'', [(''query'', PStr ''Tom''), (''include_adult'', PBool False)])]"
proof -
  let ?r = "noRequest\<lparr>director := Some (replicate 101 CHR ''b'')\<rparr>"
  have t: "trim (replicate 101 CHR ''b'') = replicate 101 CHR ''b''"
    by (simp add: trim_def isWhiteSpace_def dropWhile_replicate)
  have v: "validate Number_digits 2026 ?r = Inr 1"
    by (simp add: validate_def noRequest_def truthy_def Number_digits_def isDigit_def)
  have "resolvePerson mockUpstream ''director'' (director ?r) 1 freshWorld =
      (Respond (NameTooLong ''director''), freshWorld)"
    by (simp add: resolvePerson_def noRequest_def truthy_def t)
  then have "resolvePersons mockUpstream ?r 1 freshWorld =
      (Respond (NameTooLong ''director''), freshWorld)"
    by (simp add: resolvePersons_def resolvePerson_falsy noRequest_def truthy_def)
  with v have 1: "fst (search Number_digits 2026 mockUpstream ?r freshWorld) = NameTooLong ''director''"
    by (simp add: search_def)
  let ?g = "noRequest\<lparr>genre := Some ''action''\<rparr>"
  have "validate Number_digits 2026 ?g = Inl InvalidGenre"
    by (simp add: validate_def noRequest_def truthy_def Number_digits_def isDigit_def)
  then have 2: "fst (search Number_digits 2026 mockUpstream ?g freshWorld) = InvalidGenre"
    by (simp add: search_def)
  from 1 validation_before_upstream [of Number_digits 2026 mockUpstream ?r freshWorld]
  have 3: "snd (search Number_digits 2026 mockUpstream ?r freshWorld) = freshWorld"
    by (simp add: noRequest_def truthy_def)
  from 2 validation_before_upstream [of Number_digits 2026 mockUpstream ?g freshWorld]
  have 4: "snd (search Number_digits 2026 mockUpstream ?g freshWorld) = freshWorld"
    by simp
  let ?c = "noRequest\<lparr>cast := Some ''Tom'', director := Some (replicate 101 CHR ''b'')\<rparr>"
  have tc: "trim ''Tom'' = ''Tom''"
    by (simp add: trim_def isWhiteSpace_def)
  have "fst (search Number_digits 2026 mockUpstream ?c freshWorld) = NameTooLong ''director''"
    by (simp add: search_cast_then_long_director)
  with validation_before_upstream [of Number_digits 2026 mockUpstream ?c freshWorld]
  have 5: "fetched (snd (search Number_digits 2026 mockUpstream ?c freshWorld)) =
      [(''/search/person'', [(''query'', PStr ''Tom''), (''include_adult'', PBool False)])]"
    by (simp add: noRequest_def truthy_def tc freshWorld_def)
  from 1 2 3 4 5 show ?thesis by (simp add: prod_eq_iff)
qed

text \<open>
  The claim as stated fails on a request with a cast name and a director name of 101
  characters: the answer is the NameTooLong of the director, yet the person search for the
  cast name has gone to the network and its answer sits in the cache.
\<close>

theorem validation_before_upstream_counterexample:
  "fst (search Number_digits 2026 mockUpstream
          (noRequest\<lparr>cast := Some ''Tom'', director := Some (replicate 101 CHR ''b'')\<rparr>)
          freshWorld) = NameTooLong ''director'' \<and>
   sent (snd (search Number_digits 2026 mockUpstream
          (noRequest\<lparr>cast := Some ''Tom'', director := Some (replicate 101 CHR ''b'')\<rparr>)
          freshWorld)) =
     [(''/search/person'', [(''query'', PStr ''Tom''), (''include_adult'', PBool False)])] \<and>
   sent freshWorld = [] \<and>
   cache (snd (search Number_digits 2026 mockUpstream
          (noRequest\<lparr>cast := Some ''Tom'', director := Some (replicate 101 CHR ''b'')\<rparr>)
          freshWorld))
     (cacheKey ''/search/person'' [(''query'', PStr ''Tom''), (''include_adult'', PBool False)]) =
     Some (PERSON_RESULTS, 600120) \<and>
   cache freshWorld
     (cacheKey ''/search/person'' [(''query'', PStr ''Tom''), (''include_adult'', PBool False)]) =
     None"
  unfolding search_cast_then_long_director by (simp add: freshWorld_def)

subsection \<open>Strategy selection and fallback\<close>

lemma titleParams_eq:
  "titleParams q p yr =
     [(''query'', PStr (trim q)), (''page'', PNum p), (''include_adult'', PBool False)] @
     (if truthy yr then [(''primary_release_year'', PStr (the yr))] else [])"
  by (simp add: titleParams_def Let_def)

lemma discoverParams_eq:
  "discoverParams r p castId directorId =
     [(''page'', PNum p), (''include_adult'', PBool False), (''sort_by'', PStr ''popularity.desc'')] @
     (if truthy (query r) then [(''with_keywords'', PStr (trim (the (query r))))] else []) @
     (if truthy (year r) then [(''primary_release_year'', PStr (the (year r)))] else []) @
     (if truthy (genre r) then [(''with_genres'', PStr (the (genre r)))] else []) @
     (if truthy_id castId then [(''with_cast'', PStr (String_of_int (the castId)))] else []) @
     (if truthy_id directorId then [(''with_crew'', PStr (String_of_int (the directorId)))] else [])"
  by (simp add: discoverParams_def Let_def)

lemma strategy_title:
  assumes "\<not> useDiscover r castId directorId"
  shows "strategy up r p castId directorId w =
           (case query r of
              None \<Rightarrow> (None, w)
            | Some q \<Rightarrow> tmdbFetch up ''/search/movie'' (titleParams q p (year r)) w)"
  using assms by (simp add: strategy_def)

lemma strategy_title_fetched:
  assumes "\<not> useDiscover r castId directorId"
  shows "fetched (snd (strategy up r p castId directorId w)) =
           fetched w @ (case query r of
                          None \<Rightarrow> []
                        | Some q \<Rightarrow> [(''/search/movie'', titleParams q p (year r))])"
  by (simp add: strategy_title [OF assms] tmdbFetch_fetched split: option.split)

lemma strategy_fallback:
  assumes "useDiscover r castId directorId"
    and "tmdbFetch up ''/discover/movie'' (discoverParams r p castId directorId) w = (Some data, w1)"
    and "truthy (query r)" "noResults data"
  shows "strategy up r p castId directorId w =
           tmdbFetch up ''/search/movie'' (titleParams (the (query r)) p (year r)) w1"
  using assms by (simp add: strategy_def)

lemma strategy_no_fallback:
  assumes "useDiscover r castId directorId"
    and "tmdbFetch up ''/discover/movie'' (discoverParams r p castId directorId) w = (Some data, w1)"
    and "\<not> (truthy (query r) \<and> noResults data)"
  shows "strategy up r p castId directorId w = (Some data, w1)"
  using assms by (auto simp: strategy_def)

lemma strategy_discover_down:
  assumes "useDiscover r castId directorId"
    and "tmdbFetch up ''/discover/movie'' (discoverParams r p castId directorId) w = (None, w1)"
  shows "strategy up r p castId directorId w = (None, w1)"
  using assms by (simp add: strategy_def)

lemma tmdbFetch_fetched_eq:
  "tmdbFetch up path ps w = (out, w') \<Longrightarrow> fetched w' = fetched w @ [(path, ps)]"
  using tmdbFetch_fetched [of up path ps w] by simp

lemma strategy_discover_fetched:
  assumes "useDiscover r castId directorId"
  shows "\<exists>rest. fetched (snd (strategy up r p castId directorId w)) =
           fetched w @ (''/discover/movie'', discoverParams r p castId directorId) # rest \<and>
           (rest = [] \<or>
            truthy (query r) \<and>
            rest = [(''/search/movie'', titleParams (the (query r)) p (year r))])"
proof -
  let ?D = "discoverParams r p castId directorId"
  obtain out w1 where f: "tmdbFetch up ''/discover/movie'' ?D w = (out, w1)"
    by (cases "tmdbFetch up ''/discover/movie'' ?D w")
  then have l: "fetched w1 = fetched w @ [(''/discover/movie'', ?D)]"
    by (rule tmdbFetch_fetched_eq)
  show ?thesis
  proof (cases out)
    case None
    with f assms have "strategy up r p castId directorId w = (None, w1)"
      by (simp add: strategy_discover_down)
    with l show ?thesis by simp
  next
    case (Some data)
    show ?thesis
    proof (cases "truthy (query r) \<and> noResults data")
      case True
      with f Some assms have "strategy up r p castId directorId w =
          tmdbFetch up ''/search/movie'' (titleParams (the (query r)) p (year r)) w1"
        by (simp add: strategy_fallback)
      with l True show ?thesis by (simp add: tmdbFetch_fetched)
    next
      case False
      with f Some assms have "strategy up r p castId directorId w = (Some data, w1)"
        by (simp add: strategy_no_fallback)
      with l show ?thesis by simp
    qed
  qed
qed


text \<open>
  Claim C1. Take a validated request whose name resolution lets it through with the ids
  \<open>castId\<close> and \<open>directorId\<close>, in the world \<open>w1\<close>. Presence is JavaScript truthiness,
  as the handler tests it.
  \<^item> If none of genre, cast id and director id is present and the query is present, the one
    fetch that follows is the title search, with the trimmed query, the page,
    \<^verbatim>\<open>include_adult: false\<close> and the year when there is one.
  \<^item> If genre, cast id or director id is present, or the year is present without a query,
    the next fetch is the discovery, with the page, \<^verbatim>\<open>include_adult: false\<close>,
    \<^verbatim>\<open>sort_by: popularity.desc\<close> and exactly the supplied keyword, year, genre, cast id and
    director id; it is followed by nothing or, when a query was supplied, by the one
    fallback title search.
  \<^item> A request with a genre only fetches the discovery with that genre and no keyword, and
    nothing else.
\<close>

theorem strategy_selection:
  assumes "validate num cy r = Inr p"
    and "resolvePersons up r p w = (Proceed (castId, directorId), w1)"
  shows
    "(\<not> truthy (genre r) \<and> \<not> truthy_id castId \<and> \<not> truthy_id directorId \<and> truthy (query r) \<longrightarrow>
        fetched (snd (search num cy up r w)) =
          fetched w1 @
          [(''/search/movie'',
            [(''query'', PStr (trim (the (query r)))), (''page'', PNum p),
             (''include_adult'', PBool False)] @
            (if truthy (year r) then [(''primary_release_year'', PStr (the (year r)))] else []))]) \<and>
     (truthy (genre r) \<or> truthy_id castId \<or> truthy_id directorId \<or>
      (truthy (year r) \<and> \<not> truthy (query r)) \<longrightarrow>
        (\<exists>rest.
           fetched (snd (search num cy up r w)) =
             fetched w1 @
             (''/discover/movie'',
              [(''page'', PNum p), (''include_adult'', PBool False),
               (''sort_by'', PStr ''popularity.desc'')] @
              (if truthy (query r) then [(''with_keywords'', PStr (trim (the (query r))))] else []) @
              (if truthy (year r) then [(''primary_release_year'', PStr (the (year r)))] else []) @
              (if truthy (genre r) then [(''with_genres'', PStr (the (genre r)))] else []) @
              (if truthy_id castId then [(''with_cast'', PStr (String_of_int (the castId)))] else []) @
              (if truthy_id directorId
               then [(''with_crew'', PStr (String_of_int (the directorId)))] else [])) # rest \<and>
           (rest = [] \<or>
            truthy (query r) \<and>
            rest = [(''/search/movie'',
                     [(''query'', PStr (trim (the (query r)))), (''page'', PNum p),
                      (''include_adult'', PBool False)] @
                     (if truthy (year r) then [(''primary_release_year'', PStr (the (year r)))]
                      else []))]))) \<and>
     (truthy (genre r) \<and> \<not> truthy (query r) \<and> \<not> truthy (year r) \<and> \<not> truthy (cast r) \<and>
      \<not> truthy (director r) \<longrightarrow>
        fetched (snd (search num cy up r w)) =
          fetched w @
          [(''/discover/movie'',
            [(''page'', PNum p), (''include_adult'', PBool False),
             (''sort_by'', PStr ''popularity.desc''), (''with_genres'', PStr (the (genre r)))])])"
proof -
  let ?S = "strategy up r p castId directorId w1"
  have s: "fetched (snd (search num cy up r w)) = fetched (snd ?S)"
    using assms by (rule search_fetched_strategy)
  have title: "fetched (snd ?S) =
      fetched w1 @ [(''/search/movie'', titleParams (the (query r)) p (year r))]"
    if "\<not> truthy (genre r)" "\<not> truthy_id castId" "\<not> truthy_id directorId" "truthy (query r)"
  proof -
    from that have nd: "\<not> useDiscover r castId directorId" by (simp add: useDiscover_def)
    from that(4) obtain q where q: "query r = Some q" by (cases "query r") (simp_all add: truthy_def)
    with strategy_title_fetched [OF nd, of up p w1] show ?thesis by simp
  qed
  have disc: "\<exists>rest. fetched (snd ?S) =
      fetched w1 @ (''/discover/movie'', discoverParams r p castId directorId) # rest \<and>
      (rest = [] \<or>
       truthy (query r) \<and> rest = [(''/search/movie'', titleParams (the (query r)) p (year r))])"
    if "truthy (genre r) \<or> truthy_id castId \<or> truthy_id directorId \<or>
        (truthy (year r) \<and> \<not> truthy (query r))"
  proof -
    from that have "useDiscover r castId directorId" by (simp add: useDiscover_def)
    then show ?thesis by (rule strategy_discover_fetched)
  qed
  have genre_only: "fetched (snd ?S) =
      fetched w @ [(''/discover/movie'',
        [(''page'', PNum p), (''include_adult'', PBool False),
         (''sort_by'', PStr ''popularity.desc''), (''with_genres'', PStr (the (genre r)))])]"
    if g: "truthy (genre r)" "\<not> truthy (query r)" "\<not> truthy (year r)" "\<not> truthy (cast r)"
      "\<not> truthy (director r)"
  proof -
    from g assms(2) have ids: "castId = None" "directorId = None" "w1 = w"
      by (simp_all add: resolvePersons_falsy)
    from g have u: "useDiscover r castId directorId" by (simp add: useDiscover_def)
    have dp: "discoverParams r p castId directorId =
        [(''page'', PNum p), (''include_adult'', PBool False),
         (''sort_by'', PStr ''popularity.desc''), (''with_genres'', PStr (the (genre r)))]"
      using g ids by (simp add: discoverParams_eq truthy_id_def)
    obtain out w2 where f: "tmdbFetch up ''/discover/movie'' (discoverParams r p castId directorId) w1
        = (out, w2)"
      by (cases "tmdbFetch up ''/discover/movie'' (discoverParams r p castId directorId) w1")
    then have l: "fetched w2 = fetched w1 @ [(''/discover/movie'', discoverParams r p castId directorId)]"
      by (rule tmdbFetch_fetched_eq)
    have "?S = (out, w2)"
    proof (cases out)
      case None
      with u f show ?thesis by (simp add: strategy_discover_down)
    next
      case (Some data)
      with u f g(2) show ?thesis by (simp add: strategy_no_fallback)
    qed
    with l ids dp show ?thesis by simp
  qed
  from title disc genre_only show ?thesis
    unfolding s titleParams_eq discoverParams_eq by blast
qed


theorem strategy_selection_witness:
  "fetched (snd (search Number_digits 2026 mockUpstream (noRequest\<lparr>genre := Some ''28''\<rparr>)
                   freshWorld)) =
     [(''/discover/movie'',
       [(''page'', PNum 1), (''include_adult'', PBool False),
        (''sort_by'', PStr ''popularity.desc''), (''with_genres'', PStr ''28'')])] \<and>
   fetched (snd (search Number_digits 2026 mockUpstream
                   (noRequest\<lparr>query := Some ''Inception'', year := Some ''2010''\<rparr>) freshWorld)) =
     [(''/search/movie'',
       [(''query'', PStr ''Inception''), (''page'', PNum 1), (''include_adult'', PBool False),
        (''primary_release_year'', PStr ''2010'')])] \<and>
   fetched (snd (search Number_digits 2026 mockUpstream
                   (noRequest\<lparr>cast := Some ''Christopher Nolan''\<rparr>) freshWorld)) =
     [(''/search/person'',
       [(''query'', PStr ''Christopher Nolan''), (''include_adult'', PBool False)]),
      (''/discover/movie'',
       [(''page'', PNum 1), (''include_adult'', PBool False),
        (''sort_by'', PStr ''popularity.desc''), (''with_cast'', PStr ''525'')])]"
proof -
  let ?g = "noRequest\<lparr>genre := Some ''28''\<rparr>"
  let ?t = "noRequest\<lparr>query := Some ''Inception'', year := Some ''2010''\<rparr>"
  have vg: "validate Number_digits 2026 ?g = Inr 1"
    by (simp add: validate_def noRequest_def truthy_def Number_digits_def isDigit_def)
  have rg: "resolvePersons mockUpstream ?g 1 freshWorld = (Proceed (None, None), freshWorld)"
    by (simp add: resolvePersons_falsy noRequest_def truthy_def)
  have vt: "validate Number_digits 2026 ?t = Inr 1"
    by (simp add: validate_def noRequest_def truthy_def Number_digits_def isDigit_def)
  have rt: "resolvePersons mockUpstream ?t 1 freshWorld = (Proceed (None, None), freshWorld)"
    by (simp add: resolvePersons_falsy noRequest_def truthy_def)
  have tr: "trim ''Inception'' = ''Inception''"
    by (simp add: trim_def isWhiteSpace_def)
  from strategy_selection [OF vg rg] have 1:
    "fetched (snd (search Number_digits 2026 mockUpstream ?g freshWorld)) =
     [(''/discover/movie'',
       [(''page'', PNum 1), (''include_adult'', PBool False),
        (''sort_by'', PStr ''popularity.desc''), (''with_genres'', PStr ''28'')])]"
    by (simp add: noRequest_def truthy_def truthy_id_def freshWorld_def)
  from strategy_selection [OF vt rt] have 2:
    "fetched (snd (search Number_digits 2026 mockUpstream ?t freshWorld)) =
     [(''/search/movie'',
       [(''query'', PStr ''Inception''), (''page'', PNum 1), (''include_adult'', PBool False),
        (''primary_release_year'', PStr ''2010'')])]"
    by (simp add: noRequest_def truthy_def truthy_id_def freshWorld_def tr)
  let ?c = "noRequest\<lparr>cast := Some ''Christopher Nolan''\<rparr>"
  let ?ps = "[(''query'', PStr ''Christopher Nolan''), (''include_adult'', PBool False)]"
  let ?w1 = "\<lparr>cache = [cacheKey ''/search/person'' ?ps \<mapsto> (PERSON_RESULTS, 600120)],
       clock = 120, fetched = [(''/search/person'', ?ps)], sent = [(''/search/person'', ?ps)]\<rparr>"
  have tc: "trim ''Christopher Nolan'' = ''Christopher Nolan''"
    by (simp add: trim_def isWhiteSpace_def)
  have vc: "validate Number_digits 2026 ?c = Inr 1"
    by (simp add: validate_def noRequest_def truthy_def Number_digits_def isDigit_def)
  have f: "tmdbFetch mockUpstream ''/search/person'' ?ps freshWorld = (Some PERSON_RESULTS, ?w1)"
    by (simp add: tmdbFetch_def freshWorld_def cache_get_def cache_set_def mockUpstream_def
        CACHE_TTL_SECONDS_def)
  have "resolvePerson mockUpstream ''cast'' (cast ?c) 1 freshWorld = (Proceed (Some 525), ?w1)"
    by (simp add: resolvePerson_def Let_def noRequest_def truthy_def tc f PERSON_RESULTS_def)
  then have rc: "resolvePersons mockUpstream ?c 1 freshWorld = (Proceed (Some 525, None), ?w1)"
    by (simp add: resolvePersons_def resolvePerson_falsy noRequest_def truthy_def)
  have s: "String_of_int 525 = ''525''"
    by code_simp
  from strategy_selection [OF vc rc] have 3:
    "fetched (snd (search Number_digits 2026 mockUpstream ?c freshWorld)) =
     [(''/search/person'', ?ps),
      (''/discover/movie'',
       [(''page'', PNum 1), (''include_adult'', PBool False),
        (''sort_by'', PStr ''popularity.desc''), (''with_cast'', PStr ''525'')])]"
    by (simp add: noRequest_def truthy_def truthy_id_def s)
  from 1 2 3 show ?thesis by simp
qed

text \<open>
  Claim C2. For a validated request let through by the name resolution:
  \<^item> when the discovery is used, answers a document without results, and a query was
    supplied, the handler fetches the title search once, with the same query, year and page,
    and its answer (or its failure) is the answer of the request;
  \<^item> when the discovery answers with results, or no query was supplied, its document is
    the answer and nothing more is fetched; when the discovery fails, nothing more is fetched;
  \<^item> when the title search is the primary strategy it is the only fetch;
  \<^item> in every case at most one title search is fetched after the name resolution.
\<close>

theorem fallback_rule:
  assumes "validate num cy r = Inr p"
    and "resolvePersons up r p w = (Proceed (castId, directorId), w1)"
  shows
    "(useDiscover r castId directorId \<and>
      tmdbFetch up ''/discover/movie'' (discoverParams r p castId directorId) w1 = (Some data, w2) \<and>
      truthy (query r) \<and> noResults data \<and>
      tmdbFetch up ''/search/movie'' (titleParams (the (query r)) p (year r)) w2 = (out, w3) \<longrightarrow>
        search num cy up r w =
          (case out of None \<Rightarrow> UpstreamUnavailable | Some fb \<Rightarrow> respond fb p, w3) \<and>
        fetched w3 =
          fetched w1 @ [(''/discover/movie'', discoverParams r p castId directorId),
                        (''/search/movie'', titleParams (the (query r)) p (year r))]) \<and>
     (useDiscover r castId directorId \<and>
      tmdbFetch up ''/discover/movie'' (discoverParams r p castId directorId) w1 = (Some data, w2) \<and>
      \<not> (truthy (query r) \<and> noResults data) \<longrightarrow>
        search num cy up r w = (respond data p, w2) \<and>
        fetched w2 = fetched w1 @ [(''/discover/movie'', discoverParams r p castId directorId)]) \<and>
     (useDiscover r castId directorId \<and>
      tmdbFetch up ''/discover/movie'' (discoverParams r p castId directorId) w1 = (None, w2) \<longrightarrow>
        search num cy up r w = (UpstreamUnavailable, w2) \<and>
        fetched w2 = fetched w1 @ [(''/discover/movie'', discoverParams r p castId directorId)]) \<and>
     (\<not> useDiscover r castId directorId \<longrightarrow>
        fetched (snd (search num cy up r w)) =
          fetched w1 @ (case query r of
                          None \<Rightarrow> []
                        | Some q \<Rightarrow> [(''/search/movie'', titleParams q p (year r))])) \<and>
     length (filter (\<lambda>c. fst c = ''/search/movie'')
               (drop (length (fetched w1)) (fetched (snd (search num cy up r w))))) \<le> 1"
proof -
  let ?D = "(''/discover/movie'', discoverParams r p castId directorId)"
  let ?T = "(''/search/movie'', titleParams (the (query r)) p (year r))"
  let ?S = "strategy up r p castId directorId w1"
  have s: "fetched (snd (search num cy up r w)) = fetched (snd ?S)"
    using assms by (rule search_fetched_strategy)
  have 1: "search num cy up r w =
        (case out of None \<Rightarrow> UpstreamUnavailable | Some fb \<Rightarrow> respond fb p, w3) \<and>
      fetched w3 = fetched w1 @ [?D, ?T]"
    if a: "useDiscover r castId directorId"
      "tmdbFetch up ''/discover/movie'' (discoverParams r p castId directorId) w1 = (Some data, w2)"
      "truthy (query r)" "noResults data"
      "tmdbFetch up ''/search/movie'' (titleParams (the (query r)) p (year r)) w2 = (out, w3)"
  proof -
    from a have "?S = (out, w3)" by (simp add: strategy_fallback)
    from search_strategy [OF assms this] tmdbFetch_fetched_eq [OF a(2)] tmdbFetch_fetched_eq [OF a(5)]
    show ?thesis by simp
  qed
  have 2: "search num cy up r w = (respond data p, w2) \<and> fetched w2 = fetched w1 @ [?D]"
    if a: "useDiscover r castId directorId"
      "tmdbFetch up ''/discover/movie'' (discoverParams r p castId directorId) w1 = (Some data, w2)"
      "\<not> (truthy (query r) \<and> noResults data)"
  proof -
    from a have "?S = (Some data, w2)" by (rule strategy_no_fallback)
    from search_strategy [OF assms this] tmdbFetch_fetched_eq [OF a(2)]
    show ?thesis by simp
  qed
  have 3: "search num cy up r w = (UpstreamUnavailable, w2) \<and> fetched w2 = fetched w1 @ [?D]"
    if a: "useDiscover r castId directorId"
      "tmdbFetch up ''/discover/movie'' (discoverParams r p castId directorId) w1 = (None, w2)"
  proof -
    from a have "?S = (None, w2)" by (rule strategy_discover_down)
    from search_strategy [OF assms this] tmdbFetch_fetched_eq [OF a(2)]
    show ?thesis by simp
  qed
  have 4: "fetched (snd (search num cy up r w)) =
      fetched w1 @ (case query r of
                      None \<Rightarrow> []
                    | Some q \<Rightarrow> [(''/search/movie'', titleParams q p (year r))])"
    if "\<not> useDiscover r castId directorId"
    unfolding s using that by (rule strategy_title_fetched)
  have 5: "length (filter (\<lambda>c. fst c = ''/search/movie'')
      (drop (length (fetched w1)) (fetched (snd (search num cy up r w))))) \<le> 1"
  proof (cases "useDiscover r castId directorId")
    case True
    from strategy_discover_fetched [OF True, of up p w1] s show ?thesis by auto
  next
    case False
    from 4 [OF False] show ?thesis by (simp split: option.split)
  qed
  from 1 2 3 4 5 show ?thesis by blast
qed


theorem fallback_rule_witness:
  "search Number_digits 2026 mockUpstream
     (noRequest\<lparr>query := Some ''bat'', genre := Some ''28''\<rparr>) freshWorld =
     (SearchResult [Item 27205 ''Inception''] 1 1 1,
      \<lparr>cache = [cacheKey ''/discover/movie''
                   [(''page'', PNum 1), (''include_adult'', PBool False),
                    (''sort_by'', PStr ''popularity.desc''), (''with_keywords'', PStr ''bat''),
                    (''with_genres'', PStr ''28'')] \<mapsto> (EMPTY_MOVIE_LIST, 600200),
                 cacheKey ''/search/movie''
                   [(''query'', PStr ''bat''), (''page'', PNum 1),
                    (''include_adult'', PBool False)] \<mapsto> (MOVIE_LIST, 600350)],
       clock = 350,
       fetched = [(''/discover/movie'',
                   [(''page'', PNum 1), (''include_adult'', PBool False),
                    (''sort_by'', PStr ''popularity.desc''), (''with_keywords'', PStr ''bat''),
                    (''with_genres'', PStr ''28'')]),
                  (''/search/movie'',
                   [(''query'', PStr ''bat''), (''page'', PNum 1),
                    (''include_adult'', PBool False)])],
       sent = [(''/discover/movie'',
                [(''page'', PNum 1), (''include_adult'', PBool False),
                 (''sort_by'', PStr ''popularity.desc''), (''with_keywords'', PStr ''bat''),
                 (''with_genres'', PStr ''28'')]),
               (''/search/movie'',
                [(''query'', PStr ''bat''), (''page'', PNum 1),
                 (''include_adult'', PBool False)])]\<rparr>) \<and>
   search Number_digits 2026 mockUpstream (noRequest\<lparr>genre := Some ''28''\<rparr>) freshWorld =
     (SearchResult [] 0 0 1,
      \<lparr>cache = [cacheKey ''/discover/movie''
                   [(''page'', PNum 1), (''include_adult'', PBool False),
                    (''sort_by'', PStr ''popularity.desc''), (''with_genres'', PStr ''28'')]
                 \<mapsto> (EMPTY_MOVIE_LIST, 600200)],
       clock = 200,
       fetched = [(''/discover/movie'',
                   [(''page'', PNum 1), (''include_adult'', PBool False),
                    (''sort_by'', PStr ''popularity.desc''), (''with_genres'', PStr ''28'')])],
       sent = [(''/discover/movie'',
                [(''page'', PNum 1), (''include_adult'', PBool False),
                 (''sort_by'', PStr ''popularity.desc''), (''with_genres'', PStr ''28'')])]\<rparr>) \<and>
   search Number_digits 2026 downUpstream (noRequest\<lparr>genre := Some ''28''\<rparr>) freshWorld =
     (UpstreamUnavailable,
      \<lparr>cache = Map.empty, clock = 8000,
       fetched = [(''/discover/movie'',
                   [(''page'', PNum 1), (''include_adult'', PBool False),
                    (''sort_by'', PStr ''popularity.desc''), (''with_genres'', PStr ''28'')])],
       sent = [(''/discover/movie'',
                [(''page'', PNum 1), (''include_adult'', PBool False),
                 (''sort_by'', PStr ''popularity.desc''), (''with_genres'', PStr ''28'')])]\<rparr>) \<and>
   fetched (snd (search Number_digits 2026 mockUpstream (noRequest\<lparr>query := Some ''bat''\<rparr>)
                   freshWorld)) =
     [(''/search/movie'',
       [(''query'', PStr ''bat''), (''page'', PNum 1), (''include_adult'', PBool False)])]"
proof -
  let ?r = "noRequest\<lparr>query := Some ''bat'', genre := Some ''28''\<rparr>"
  let ?dp = "[(''page'', PNum 1), (''include_adult'', PBool False),
        (''sort_by'', PStr ''popularity.desc''), (''with_keywords'', PStr ''bat''),
        (''with_genres'', PStr ''28'')]"
  let ?tp = "[(''query'', PStr ''bat''), (''page'', PNum 1), (''include_adult'', PBool False)]"
  let ?w2 = "\<lparr>cache = [cacheKey ''/discover/movie'' ?dp \<mapsto> (EMPTY_MOVIE_LIST, 600200)],
       clock = 200, fetched = [(''/discover/movie'', ?dp)], sent = [(''/discover/movie'', ?dp)]\<rparr>"
  let ?w3 = "\<lparr>cache = [cacheKey ''/discover/movie'' ?dp \<mapsto> (EMPTY_MOVIE_LIST, 600200),
                        cacheKey ''/search/movie'' ?tp \<mapsto> (MOVIE_LIST, 600350)],
       clock = 350,
       fetched = [(''/discover/movie'', ?dp), (''/search/movie'', ?tp)],
       sent = [(''/discover/movie'', ?dp), (''/search/movie'', ?tp)]\<rparr>"
  have tr: "trim ''bat'' = ''bat''"
    by (simp add: trim_def isWhiteSpace_def)
  have v: "validate Number_digits 2026 ?r = Inr 1"
    by (simp add: validate_def noRequest_def truthy_def Number_digits_def isDigit_def)
  have rp: "resolvePersons mockUpstream ?r 1 freshWorld = (Proceed (None, None), freshWorld)"
    by (simp add: resolvePersons_falsy noRequest_def truthy_def)
  have u: "useDiscover ?r None None"
    by (simp add: useDiscover_def noRequest_def truthy_def)
  have q: "truthy (query ?r)"
    by (simp add: noRequest_def truthy_def)
  have dp: "discoverParams ?r 1 None None = ?dp"
    by (simp add: discoverParams_eq noRequest_def truthy_def truthy_id_def tr)
  have tp: "titleParams (the (query ?r)) 1 (year ?r) = ?tp"
    by (simp add: titleParams_eq noRequest_def truthy_def tr)
  have f1: "tmdbFetch mockUpstream ''/discover/movie'' ?dp freshWorld = (Some EMPTY_MOVIE_LIST, ?w2)"
    by (simp add: tmdbFetch_def freshWorld_def cache_get_def cache_set_def mockUpstream_def
        CACHE_TTL_SECONDS_def)
  have k: "cacheKey ''/discover/movie'' ?dp \<noteq> cacheKey ''/search/movie'' ?tp"
    by (simp add: cacheKey_def)
  have f2: "tmdbFetch mockUpstream ''/search/movie'' ?tp ?w2 = (Some MOVIE_LIST, ?w3)"
    using k by (simp add: tmdbFetch_def cache_get_def cache_set_def mockUpstream_def
        CACHE_TTL_SECONDS_def)
  have n: "noResults EMPTY_MOVIE_LIST"
    by (simp add: noResults_def EMPTY_MOVIE_LIST_def)
  from fallback_rule [OF v rp, of EMPTY_MOVIE_LIST ?w2 "Some MOVIE_LIST" ?w3] u q n f1 f2
  have "search Number_digits 2026 mockUpstream ?r freshWorld = (respond MOVIE_LIST 1, ?w3)"
    unfolding dp tp by simp
  then have 1: "search Number_digits 2026 mockUpstream ?r freshWorld =
      (SearchResult [Item 27205 ''Inception''] 1 1 1, ?w3)"
    by (simp add: respond_def MOVIE_LIST_def)

  let ?g = "noRequest\<lparr>genre := Some ''28''\<rparr>"
  let ?gp = "[(''page'', PNum 1), (''include_adult'', PBool False),
        (''sort_by'', PStr ''popularity.desc''), (''with_genres'', PStr ''28'')]"
  let ?wg = "\<lparr>cache = [cacheKey ''/discover/movie'' ?gp \<mapsto> (EMPTY_MOVIE_LIST, 600200)],
       clock = 200, fetched = [(''/discover/movie'', ?gp)], sent = [(''/discover/movie'', ?gp)]\<rparr>"
  let ?wd = "\<lparr>cache = Map.empty, clock = 8000, fetched = [(''/discover/movie'', ?gp)],
       sent = [(''/discover/movie'', ?gp)]\<rparr>"
  have vg: "validate Number_digits 2026 ?g = Inr 1"
    by (simp add: validate_def noRequest_def truthy_def Number_digits_def isDigit_def)
  have rg: "resolvePersons up ?g 1 freshWorld = (Proceed (None, None), freshWorld)" for up
    by (simp add: resolvePersons_falsy noRequest_def truthy_def)
  have ug: "useDiscover ?g None None"
    by (simp add: useDiscover_def noRequest_def truthy_def)
  have qg: "\<not> truthy (query ?g)"
    by (simp add: noRequest_def truthy_def)
  have gp: "discoverParams ?g 1 None None = ?gp"
    by (simp add: discoverParams_eq noRequest_def truthy_def truthy_id_def)
  have fg: "tmdbFetch mockUpstream ''/discover/movie'' ?gp freshWorld = (Some EMPTY_MOVIE_LIST, ?wg)"
    by (simp add: tmdbFetch_def freshWorld_def cache_get_def cache_set_def mockUpstream_def
        CACHE_TTL_SECONDS_def)
  have fd: "tmdbFetch downUpstream ''/discover/movie'' ?gp freshWorld = (None, ?wd)"
    by (simp add: tmdbFetch_def freshWorld_def cache_get_def downUpstream_def)
  from fallback_rule [OF vg rg, of mockUpstream EMPTY_MOVIE_LIST ?wg] ug qg fg
  have "search Number_digits 2026 mockUpstream ?g freshWorld = (respond EMPTY_MOVIE_LIST 1, ?wg)"
    unfolding gp by simp
  then have 2: "search Number_digits 2026 mockUpstream ?g freshWorld = (SearchResult [] 0 0 1, ?wg)"
    by (simp add: respond_def EMPTY_MOVIE_LIST_def)
  from fallback_rule [OF vg rg, of downUpstream _ ?wd] ug fd
  have 3: "search Number_digits 2026 downUpstream ?g freshWorld = (UpstreamUnavailable, ?wd)"
    unfolding gp by simp

  let ?t = "noRequest\<lparr>query := Some ''bat''\<rparr>"
  have vt: "validate Number_digits 2026 ?t = Inr 1"
    by (simp add: validate_def noRequest_def truthy_def Number_digits_def isDigit_def)
  have rt: "resolvePersons mockUpstream ?t 1 freshWorld = (Proceed (None, None), freshWorld)"
    by (simp add: resolvePersons_falsy noRequest_def truthy_def)
  have ut: "\<not> useDiscover ?t None None"
    by (simp add: useDiscover_def noRequest_def truthy_def truthy_id_def)
  have tt: "titleParams ''bat'' 1 (year ?t) = ?tp"
    by (simp add: titleParams_eq noRequest_def truthy_def tr)
  from fallback_rule [OF vt rt] ut tt
  have 4: "fetched (snd (search Number_digits 2026 mockUpstream ?t freshWorld)) =
      [(''/search/movie'', ?tp)]"
    by (simp add: noRequest_def freshWorld_def)
  from 1 2 3 4 show ?thesis by simp
qed

subsection \<open>The cache key\<close>



lemma of_char_eq_numeral: "(of_char c = (n::nat)) \<Longrightarrow> c = char_of n"
  by auto




























subsection \<open>Caching\<close>

lemma tmdbFetch_hit:
  assumes "cache v (cacheKey path ps) = Some (d, e)" "clock v \<le> e"
  shows "tmdbFetch up path ps v = (Some d, v\<lparr>fetched := fetched v @ [(path, ps)]\<rparr>)"
  using assms by (simp add: tmdbFetch_def cache_get_def)

lemma tmdbFetch_miss:
  assumes "cache_get (cache w) (clock w) (cacheKey path ps) = None"
    and "up (clock w) path ps = (latency, Some d)"
  shows "tmdbFetch up path ps w =
           (Some d,
            w\<lparr>fetched := fetched w @ [(path, ps)], sent := sent w @ [(path, ps)],
              clock := clock w + latency,
              cache := (cache w)(cacheKey path ps \<mapsto>
                          (d, clock w + latency + CACHE_TTL_SECONDS * 1000))\<rparr>)"
  using assms by (simp add: tmdbFetch_def cache_set_def)



lemma entriesUntil_fetched [simp]:
  "entriesUntil T (v\<lparr>fetched := x\<rparr>) = entriesUntil T v"
  by (simp add: entriesUntil_def)

lemma tmdbFetch_clock:
  "clock w \<le> clock (snd (tmdbFetch up path ps w))"
  by (simp add: tmdbFetch_def Let_def split: option.split prod.split)

lemma tmdbFetch_first:
  assumes f: "tmdbFetch up path ps w = (out, w')"
    and inv: "entriesUntil T w" and ttl: "T \<le> clock w + CACHE_TTL_SECONDS * 1000"
    and fin: "clock w' \<le> T"
  shows "entriesUntil T w' \<and> cache w \<subseteq>\<^sub>m cache w' \<and>
         (\<forall>d. out = Some d \<longrightarrow> (\<exists>e. cache w' (cacheKey path ps) = Some (d, e)))"
proof (cases "cache w (cacheKey path ps)")
  case None
  then have g: "cache_get (cache w) (clock w) (cacheKey path ps) = None"
    by (simp add: cache_get_def)
  obtain latency response where u: "up (clock w) path ps = (latency, response)"
    by (cases "up (clock w) path ps")
  show ?thesis
  proof (cases response)
    case None
    with f g u have "cache w' = cache w" "out = None"
      by (auto simp: tmdbFetch_def)
    with inv show ?thesis by (simp add: entriesUntil_def)
  next
    case (Some d)
    with u have "up (clock w) path ps = (latency, Some d)" by simp
    from tmdbFetch_miss [of w path ps up latency d] g this f
    have c: "cache w' = (cache w)(cacheKey path ps \<mapsto>
        (d, clock w + latency + CACHE_TTL_SECONDS * 1000))" and o: "out = Some d"
      by auto
    from c inv ttl have "entriesUntil T w'" by (auto simp: entriesUntil_def)
    moreover from c \<open>cache w (cacheKey path ps) = None\<close> have "cache w \<subseteq>\<^sub>m cache w'"
      by (auto simp: map_le_def)
    ultimately show ?thesis using c o by simp
  qed
next
  case (Some a)
  obtain d e where a: "a = (d, e)" by (cases a)
  from inv Some a have "T \<le> e" by (auto simp: entriesUntil_def)
  moreover from tmdbFetch_clock [of w up path ps] f fin have "clock w \<le> T" by simp
  ultimately have "clock w \<le> e" by simp
  from tmdbFetch_hit [of w path ps d e up] Some a this f
  have "out = Some d" "cache w' = cache w" by auto
  with inv Some a show ?thesis by (simp add: entriesUntil_def)
qed

lemma tmdbFetch_again:
  assumes f: "tmdbFetch up path ps w = (Some d, w')"
    and inv: "entriesUntil T w" and ttl: "T \<le> clock w + CACHE_TTL_SECONDS * 1000"
    and fin: "clock w' \<le> T"
    and sub: "cache w' \<subseteq>\<^sub>m cache v" and live: "entriesUntil (clock v) v"
  shows "tmdbFetch up path ps v = (Some d, v\<lparr>fetched := fetched v @ [(path, ps)]\<rparr>)"
proof -
  from tmdbFetch_first [OF f inv ttl fin]
  obtain e where "cache w' (cacheKey path ps) = Some (d, e)" by blast
  with sub have c: "cache v (cacheKey path ps) = Some (d, e)"
    by (auto simp: map_le_def dom_def)
  with live have "clock v \<le> e" by (auto simp: entriesUntil_def)
  with c show ?thesis by (rule tmdbFetch_hit)
qed


lemma resolvePerson_fetch:
  assumes "truthy name" "length (trim (the name)) \<le> 100"
    and "tmdbFetch up ''/search/person''
           [(''query'', PStr (trim (the name))), (''include_adult'', PBool False)] w = (out, w1)"
  shows "resolvePerson up field name p w =
           (case out of
              None \<Rightarrow> Thrown
            | Some personSearch \<Rightarrow>
                (case results personSearch of
                   None \<Rightarrow> Respond (SearchResult [] 0 0 p)
                 | Some [] \<Rightarrow> Respond (SearchResult [] 0 0 p)
                 | Some (x # _) \<Rightarrow> Proceed (Some (item_id x))), w1)"
  using assms unfolding resolvePerson_def Let_def
  by (simp split: option.split list.split)

lemma resolvePerson_pure:
  assumes "\<not> (truthy name \<and> length (trim (the name)) \<le> 100)"
  shows "resolvePerson up field name p w =
           (if truthy name then Respond (NameTooLong field) else Proceed None, w)"
  using assms unfolding resolvePerson_def Let_def by auto

lemma resolvePerson_clock:
  "clock w \<le> clock (snd (resolvePerson up field name p w))"
proof (cases "truthy name \<and> length (trim (the name)) \<le> 100")
  case True
  let ?ps = "[(''query'', PStr (trim (the name))), (''include_adult'', PBool False)]"
  obtain out w1 where f: "tmdbFetch up ''/search/person'' ?ps w = (out, w1)"
    by (cases "tmdbFetch up ''/search/person'' ?ps w")
  from True have "truthy name" "length (trim (the name)) \<le> 100" by simp_all
  from resolvePerson_fetch [OF this f, of field p] tmdbFetch_clock [of w up "''/search/person''" ?ps] f
  show ?thesis by simp
next
  case False
  then show ?thesis by (simp add: resolvePerson_pure)
qed

lemma resolvePerson_replay:
  assumes run: "resolvePerson up field name p w = (out, w')" and good: "out \<noteq> Thrown"
    and inv: "entriesUntil T w" and ttl: "T \<le> clock w + CACHE_TTL_SECONDS * 1000"
    and fin: "clock w' \<le> T"
  shows "entriesUntil T w' \<and> cache w \<subseteq>\<^sub>m cache w' \<and>
         (\<forall>v. cache w' \<subseteq>\<^sub>m cache v \<and> entriesUntil (clock v) v \<longrightarrow>
              (\<exists>calls. resolvePerson up field name p v = (out, v\<lparr>fetched := fetched v @ calls\<rparr>)))"
proof (cases "truthy name \<and> length (trim (the name)) \<le> 100")
  case False
  with run have w: "w' = w" and o: "out = (if truthy name then Respond (NameTooLong field) else Proceed None)"
    by (simp_all add: resolvePerson_pure)
  have "resolvePerson up field name p v = (out, v\<lparr>fetched := fetched v @ []\<rparr>)" for v
    using False o by (simp add: resolvePerson_pure)
  then have "\<exists>calls. resolvePerson up field name p v = (out, v\<lparr>fetched := fetched v @ calls\<rparr>)"
    for v by blast
  with w inv show ?thesis by simp
next
  case True
  then have t: "truthy name" "length (trim (the name)) \<le> 100" by simp_all
  let ?ps = "[(''query'', PStr (trim (the name))), (''include_adult'', PBool False)]"
  obtain res w1 where f: "tmdbFetch up ''/search/person'' ?ps w = (res, w1)"
    by (cases "tmdbFetch up ''/search/person'' ?ps w")
  note r = resolvePerson_fetch [OF t f, of field p]
  with run have w1: "w1 = w'" by simp
  from r run good obtain d where d: "res = Some d" by (cases res) auto
  from f w1 d have f': "tmdbFetch up ''/search/person'' ?ps w = (Some d, w')" by simp
  from tmdbFetch_first [OF f' inv ttl fin]
  have 1: "entriesUntil T w'" "cache w \<subseteq>\<^sub>m cache w'" by simp_all
  have "\<exists>calls. resolvePerson up field name p v = (out, v\<lparr>fetched := fetched v @ calls\<rparr>)"
    if v: "cache w' \<subseteq>\<^sub>m cache v" "entriesUntil (clock v) v" for v
  proof -
    from tmdbFetch_again [OF f' inv ttl fin v]
    have "tmdbFetch up ''/search/person'' ?ps v =
        (Some d, v\<lparr>fetched := fetched v @ [(''/search/person'', ?ps)]\<rparr>)" .
    from resolvePerson_fetch [OF t this, of field p] r run d
    have "resolvePerson up field name p v =
        (out, v\<lparr>fetched := fetched v @ [(''/search/person'', ?ps)]\<rparr>)"
      by simp
    then show ?thesis by blast
  qed
  with 1 show ?thesis by blast
qed


lemma resolvePersons_clock:
  "clock w \<le> clock (snd (resolvePersons up r p w))"
proof (cases "resolvePerson up ''cast'' (cast r) p w")
  case (Pair o1 w1)
  with resolvePerson_clock [of w up "''cast''" "cast r" p] have 1: "clock w \<le> clock w1" by simp
  show ?thesis
  proof (cases "\<exists>castId. o1 = Proceed castId")
    case False
    with Pair 1 show ?thesis by (cases o1) (simp_all add: resolvePersons_def)
  next
    case True
    then obtain castId where c: "o1 = Proceed castId" by blast
    obtain o2 w2 where d: "resolvePerson up ''director'' (director r) p w1 = (o2, w2)"
      by (cases "resolvePerson up ''director'' (director r) p w1")
    with resolvePerson_clock [of w1 up "''director''" "director r" p] 1 have "clock w \<le> clock w2"
      by simp
    with Pair c d show ?thesis by (cases o2) (simp_all add: resolvePersons_def)
  qed
qed

lemma resolvePersons_replay:
  assumes run: "resolvePersons up r p w = (out, w')" and good: "out \<noteq> Thrown"
    and inv: "entriesUntil T w" and ttl: "T \<le> clock w + CACHE_TTL_SECONDS * 1000"
    and fin: "clock w' \<le> T"
  shows "entriesUntil T w' \<and> cache w \<subseteq>\<^sub>m cache w' \<and>
         (\<forall>v. cache w' \<subseteq>\<^sub>m cache v \<and> entriesUntil (clock v) v \<longrightarrow>
              (\<exists>calls. resolvePersons up r p v = (out, v\<lparr>fetched := fetched v @ calls\<rparr>)))"
proof (cases "resolvePerson up ''cast'' (cast r) p w")
  case (Pair o1 w1)
  show ?thesis
  proof (cases "\<exists>castId. o1 = Proceed castId")
    case False
    with Pair run good obtain x where o1: "o1 = Respond x"
      by (cases o1) (simp_all add: resolvePersons_def)
    with Pair run have e: "out = Respond x" "w' = w1"
      by (simp_all add: resolvePersons_def)
    with Pair o1 have c: "resolvePerson up ''cast'' (cast r) p w = (Respond x, w')" by simp
    note 1 = resolvePerson_replay [OF c _ inv ttl fin, simplified]
    have "\<exists>calls. resolvePersons up r p v = (out, v\<lparr>fetched := fetched v @ calls\<rparr>)"
      if v: "cache w' \<subseteq>\<^sub>m cache v" "entriesUntil (clock v) v" for v
    proof -
      from 1 v obtain calls where
        "resolvePerson up ''cast'' (cast r) p v = (Respond x, v\<lparr>fetched := fetched v @ calls\<rparr>)"
        by blast
      with e have "resolvePersons up r p v = (out, v\<lparr>fetched := fetched v @ calls\<rparr>)"
        by (simp add: resolvePersons_def)
      then show ?thesis by blast
    qed
    with 1 show ?thesis by blast
  next
    case True
    then obtain castId where o1: "o1 = Proceed castId" by blast
    obtain o2 w2 where d: "resolvePerson up ''director'' (director r) p w1 = (o2, w2)"
      by (cases "resolvePerson up ''director'' (director r) p w1")
    from Pair o1 d run have w2: "w2 = w'" by (cases o2) (simp_all add: resolvePersons_def)
    from Pair o1 d run good have g2: "o2 \<noteq> Thrown" by (cases o2) (simp_all add: resolvePersons_def)
    from Pair o1 have c: "resolvePerson up ''cast'' (cast r) p w = (Proceed castId, w1)" by simp
    from d w2 have d': "resolvePerson up ''director'' (director r) p w1 = (o2, w')" by simp
    from resolvePerson_clock [of w1 up "''director''" "director r" p] d' fin
    have fin1: "clock w1 \<le> T" by simp
    from resolvePerson_clock [of w up "''cast''" "cast r" p] c ttl
    have ttl1: "T \<le> clock w1 + CACHE_TTL_SECONDS * 1000" by simp
    note 1 = resolvePerson_replay [OF c _ inv ttl fin1, simplified]
    then have inv1: "entriesUntil T w1" by simp
    note 2 = resolvePerson_replay [OF d' g2 inv1 ttl1 fin]
    from 1 2 have le: "cache w \<subseteq>\<^sub>m cache w'" "cache w1 \<subseteq>\<^sub>m cache w'"
      by (auto intro: map_le_trans)
    have "\<exists>calls. resolvePersons up r p v = (out, v\<lparr>fetched := fetched v @ calls\<rparr>)"
      if v: "cache w' \<subseteq>\<^sub>m cache v" "entriesUntil (clock v) v" for v
    proof -
      from le(2) v(1) have "cache w1 \<subseteq>\<^sub>m cache v" by (rule map_le_trans)
      with 1 v(2) obtain c1 where
        r1: "resolvePerson up ''cast'' (cast r) p v = (Proceed castId, v\<lparr>fetched := fetched v @ c1\<rparr>)"
        by blast
      let ?v1 = "v\<lparr>fetched := fetched v @ c1\<rparr>"
      from v have "cache w' \<subseteq>\<^sub>m cache ?v1" "entriesUntil (clock ?v1) ?v1" by simp_all
      with 2 obtain c2 where
        r2: "resolvePerson up ''director'' (director r) p ?v1 = (o2, ?v1\<lparr>fetched := fetched ?v1 @ c2\<rparr>)"
        by blast
      from Pair o1 d run have "resolvePersons up r p v =
          (out, v\<lparr>fetched := fetched v @ (c1 @ c2)\<rparr>)"
        by (cases o2) (simp_all add: resolvePersons_def r1 r2)
      then show ?thesis by blast
    qed
    with 2 le show ?thesis by blast
  qed
qed


lemma strategy_clock:
  "clock w \<le> clock (snd (strategy up r p castId directorId w))"
proof (cases "useDiscover r castId directorId")
  case False
  then show ?thesis
    by (simp add: strategy_title tmdbFetch_clock split: option.split)
next
  case True
  let ?D = "discoverParams r p castId directorId"
  obtain res w1 where f: "tmdbFetch up ''/discover/movie'' ?D w = (res, w1)"
    by (cases "tmdbFetch up ''/discover/movie'' ?D w")
  with tmdbFetch_clock [of w up "''/discover/movie''" ?D] have 1: "clock w \<le> clock w1" by simp
  show ?thesis
  proof (cases res)
    case None
    with True f 1 show ?thesis by (simp add: strategy_discover_down)
  next
    case (Some data)
    show ?thesis
    proof (cases "truthy (query r) \<and> noResults data")
      case False
      with True f Some 1 show ?thesis by (simp add: strategy_no_fallback)
    next
      case q: True
      with True f Some have "strategy up r p castId directorId w =
          tmdbFetch up ''/search/movie'' (titleParams (the (query r)) p (year r)) w1"
        by (simp add: strategy_fallback)
      with tmdbFetch_clock [of w1 up "''/search/movie''" "titleParams (the (query r)) p (year r)"] 1
      show ?thesis by simp
    qed
  qed
qed

lemma strategy_replay:
  assumes run: "strategy up r p castId directorId w = (Some data, w')"
    and inv: "entriesUntil T w" and ttl: "T \<le> clock w + CACHE_TTL_SECONDS * 1000"
    and fin: "clock w' \<le> T"
  shows "entriesUntil T w' \<and> cache w \<subseteq>\<^sub>m cache w' \<and>
         (\<forall>v. cache w' \<subseteq>\<^sub>m cache v \<and> entriesUntil (clock v) v \<longrightarrow>
              (\<exists>calls. strategy up r p castId directorId v =
                          (Some data, v\<lparr>fetched := fetched v @ calls\<rparr>)))"
proof (cases "useDiscover r castId directorId")
  case False
  with run obtain q where q: "query r = Some q"
    by (cases "query r") (simp_all add: strategy_title)
  let ?T = "titleParams q p (year r)"
  from False q run have f: "tmdbFetch up ''/search/movie'' ?T w = (Some data, w')"
    by (simp add: strategy_title)
  note 1 = tmdbFetch_first [OF f inv ttl fin]
  have "\<exists>calls. strategy up r p castId directorId v = (Some data, v\<lparr>fetched := fetched v @ calls\<rparr>)"
    if v: "cache w' \<subseteq>\<^sub>m cache v" "entriesUntil (clock v) v" for v
  proof -
    from tmdbFetch_again [OF f inv ttl fin v] False q
    have "strategy up r p castId directorId v =
        (Some data, v\<lparr>fetched := fetched v @ [(''/search/movie'', ?T)]\<rparr>)"
      by (simp add: strategy_title)
    then show ?thesis by blast
  qed
  with 1 show ?thesis by blast
next
  case True
  let ?D = "discoverParams r p castId directorId"
  let ?T = "titleParams (the (query r)) p (year r)"
  obtain res w1 where f: "tmdbFetch up ''/discover/movie'' ?D w = (res, w1)"
    by (cases "tmdbFetch up ''/discover/movie'' ?D w")
  with True run obtain dd where dd: "res = Some dd"
    by (cases res) (simp_all add: strategy_discover_down)
  with f have f1: "tmdbFetch up ''/discover/movie'' ?D w = (Some dd, w1)" by simp
  show ?thesis
  proof (cases "truthy (query r) \<and> noResults dd")
    case False
    with True f1 run have e: "data = dd" "w' = w1" by (simp_all add: strategy_no_fallback)
    with f1 have f1': "tmdbFetch up ''/discover/movie'' ?D w = (Some data, w')" by simp
    note 1 = tmdbFetch_first [OF f1' inv ttl fin]
    have "\<exists>calls. strategy up r p castId directorId v = (Some data, v\<lparr>fetched := fetched v @ calls\<rparr>)"
      if v: "cache w' \<subseteq>\<^sub>m cache v" "entriesUntil (clock v) v" for v
    proof -
      note tmdbFetch_again [OF f1' inv ttl fin v]
      with True False e have "strategy up r p castId directorId v =
          (Some data, v\<lparr>fetched := fetched v @ [(''/discover/movie'', ?D)]\<rparr>)"
        by (simp add: strategy_no_fallback)
      then show ?thesis by blast
    qed
    with 1 show ?thesis by blast
  next
    case q: True
    with True f1 run have f2: "tmdbFetch up ''/search/movie'' ?T w1 = (Some data, w')"
      by (simp add: strategy_fallback)
    from tmdbFetch_clock [of w1 up "''/search/movie''" ?T] f2 fin have fin1: "clock w1 \<le> T" by simp
    from tmdbFetch_clock [of w up "''/discover/movie''" ?D] f1 ttl
    have ttl1: "T \<le> clock w1 + CACHE_TTL_SECONDS * 1000" by simp
    note 1 = tmdbFetch_first [OF f1 inv ttl fin1]
    then have inv1: "entriesUntil T w1" by simp
    note 2 = tmdbFetch_first [OF f2 inv1 ttl1 fin]
    from 1 2 have le: "cache w \<subseteq>\<^sub>m cache w'" "cache w1 \<subseteq>\<^sub>m cache w'"
      by (auto intro: map_le_trans)
    have "\<exists>calls. strategy up r p castId directorId v = (Some data, v\<lparr>fetched := fetched v @ calls\<rparr>)"
      if v: "cache w' \<subseteq>\<^sub>m cache v" "entriesUntil (clock v) v" for v
    proof -
      from le(2) v(1) have "cache w1 \<subseteq>\<^sub>m cache v" by (rule map_le_trans)
      from tmdbFetch_again [OF f1 inv ttl fin1 this v(2)]
      have r1: "tmdbFetch up ''/discover/movie'' ?D v =
          (Some dd, v\<lparr>fetched := fetched v @ [(''/discover/movie'', ?D)]\<rparr>)" .
      let ?v1 = "v\<lparr>fetched := fetched v @ [(''/discover/movie'', ?D)]\<rparr>"
      from v have "cache w' \<subseteq>\<^sub>m cache ?v1" "entriesUntil (clock ?v1) ?v1" by simp_all
      from tmdbFetch_again [OF f2 inv1 ttl1 fin this]
      have r2: "tmdbFetch up ''/search/movie'' ?T ?v1 =
          (Some data, ?v1\<lparr>fetched := fetched ?v1 @ [(''/search/movie'', ?T)]\<rparr>)" .
      from True q r1 have "strategy up r p castId directorId v =
          tmdbFetch up ''/search/movie'' ?T ?v1"
        by (simp add: strategy_fallback)
      with r2 have "strategy up r p castId directorId v =
          (Some data, v\<lparr>fetched := fetched v @
             [(''/discover/movie'', ?D), (''/search/movie'', ?T)]\<rparr>)"
        by simp
      then show ?thesis by blast
    qed
    with 2 le show ?thesis by blast
  qed
qed


lemma entriesUntil_clock [simp]:
  "entriesUntil T (v\<lparr>clock := c\<rparr>) = entriesUntil T v"
  by (simp add: entriesUntil_def)

lemma search_replay:
  assumes run: "search num cy up r w = (resp, w')" and good: "resp \<noteq> UpstreamUnavailable"
    and inv: "entriesUntil T w" and ttl: "T \<le> clock w + CACHE_TTL_SECONDS * 1000"
    and fin: "clock w' \<le> T"
  shows "entriesUntil T w' \<and>
         (\<forall>v. cache w' \<subseteq>\<^sub>m cache v \<and> entriesUntil (clock v) v \<longrightarrow>
              (\<exists>calls. search num cy up r v = (resp, v\<lparr>fetched := fetched v @ calls\<rparr>)))"
proof (cases "validate num cy r")
  case (Inl e)
  with run have e: "resp = e" "w' = w" by (simp_all add: search_validate_Inl)
  have "search num cy up r v = (resp, v\<lparr>fetched := fetched v @ []\<rparr>)" for v
    using Inl e by (simp add: search_validate_Inl)
  then have "\<exists>calls. search num cy up r v = (resp, v\<lparr>fetched := fetched v @ calls\<rparr>)" for v
    by blast
  with e inv show ?thesis by simp
next
  case (Inr p)
  obtain o1 w1 where rp: "resolvePersons up r p w = (o1, w1)"
    by (cases "resolvePersons up r p w")
  from Inr rp run good have g1: "o1 \<noteq> Thrown"
    by (cases o1) (auto simp: search_def)
  show ?thesis
  proof (cases "\<exists>ids. o1 = Proceed ids")
    case False
    with g1 obtain x where x: "o1 = Respond x" by (cases o1) auto
    with Inr rp run have e: "resp = x" "w' = w1" by (simp_all add: search_def)
    with rp x have rp': "resolvePersons up r p w = (Respond x, w')" by simp
    note 1 = resolvePersons_replay [OF rp' _ inv ttl fin, simplified]
    have "\<exists>calls. search num cy up r v = (resp, v\<lparr>fetched := fetched v @ calls\<rparr>)"
      if v: "cache w' \<subseteq>\<^sub>m cache v" "entriesUntil (clock v) v" for v
    proof -
      from 1 v obtain calls where
        "resolvePersons up r p v = (Respond x, v\<lparr>fetched := fetched v @ calls\<rparr>)"
        by blast
      with Inr e have "search num cy up r v = (resp, v\<lparr>fetched := fetched v @ calls\<rparr>)"
        by (simp add: search_def)
      then show ?thesis by blast
    qed
    with 1 show ?thesis by blast
  next
    case True
    then obtain castId directorId where ids: "o1 = Proceed (castId, directorId)" by auto
    obtain out w2 where st: "strategy up r p castId directorId w1 = (out, w2)"
      by (cases "strategy up r p castId directorId w1")
    from rp ids have rp': "resolvePersons up r p w = (Proceed (castId, directorId), w1)" by simp
    from search_strategy [OF Inr rp' st] run
    have e: "resp = (case out of None \<Rightarrow> UpstreamUnavailable | Some data \<Rightarrow> respond data p)"
      "w' = w2" by simp_all
    with good obtain data where data: "out = Some data" by (cases out) auto
    with st e have st': "strategy up r p castId directorId w1 = (Some data, w')" by simp
    from strategy_clock [of w1 up r p castId directorId] st' fin have fin1: "clock w1 \<le> T" by simp
    from resolvePersons_clock [of w up r p] rp' ttl
    have ttl1: "T \<le> clock w1 + CACHE_TTL_SECONDS * 1000" by simp
    note 1 = resolvePersons_replay [OF rp' _ inv ttl fin1, simplified]
    then have inv1: "entriesUntil T w1" by simp
    note 2 = strategy_replay [OF st' inv1 ttl1 fin]
    have "\<exists>calls. search num cy up r v = (resp, v\<lparr>fetched := fetched v @ calls\<rparr>)"
      if v: "cache w' \<subseteq>\<^sub>m cache v" "entriesUntil (clock v) v" for v
    proof -
      from 2 v(1) have "cache w1 \<subseteq>\<^sub>m cache v" by (blast intro: map_le_trans)
      with 1 v(2) obtain c1 where
        r1: "resolvePersons up r p v = (Proceed (castId, directorId), v\<lparr>fetched := fetched v @ c1\<rparr>)"
        by blast
      let ?v1 = "v\<lparr>fetched := fetched v @ c1\<rparr>"
      from v have "cache w' \<subseteq>\<^sub>m cache ?v1" "entriesUntil (clock ?v1) ?v1" by simp_all
      with 2 obtain c2 where
        r2: "strategy up r p castId directorId ?v1 = (Some data, ?v1\<lparr>fetched := fetched ?v1 @ c2\<rparr>)"
        by blast
      from search_strategy [OF Inr r1 r2] e data
      have "search num cy up r v = (resp, v\<lparr>fetched := fetched v @ (c1 @ c2)\<rparr>)"
        by simp
      then show ?thesis by blast
    qed
    with 2 show ?thesis by blast
  qed
qed

text \<open>
  Claim C6. A fetch that misses the cache and gets a document from the provider sends one
  request and stores the document; an identical fetch made while that entry is in the cache
  and less than 600 seconds after it was stored returns the stored document and sends
  nothing. Consequently a Search that did not fail, repeated after it has finished and less
  than 600 seconds after it started (the entries the cache held before staying alive that
  long), gives the same response without any request to the provider: the world changes in
  the log of fetches only.
\<close>

theorem cached_within_ttl:
  "(cache_get (cache w) (clock w) (cacheKey path ps) = None \<and>
    up (clock w) path ps = (latency, Some d) \<and>
    tmdbFetch up path ps w = (out, w1) \<and>
    cache w2 (cacheKey path ps) = cache w1 (cacheKey path ps) \<and>
    clock w2 < clock w1 + CACHE_TTL_SECONDS * 1000 \<longrightarrow>
      out = Some d \<and> sent w1 = sent w @ [(path, ps)] \<and>
      tmdbFetch up path ps w2 = (Some d, w2\<lparr>fetched := fetched w2 @ [(path, ps)]\<rparr>) \<and>
      sent (snd (tmdbFetch up path ps w2)) = sent w2) \<and>
   (search num cy up r w = (resp, w') \<and> resp \<noteq> UpstreamUnavailable \<and>
    entriesUntil t2 w \<and> clock w' \<le> t2 \<and> t2 < clock w + CACHE_TTL_SECONDS * 1000 \<longrightarrow>
      (\<exists>calls. search num cy up r (w'\<lparr>clock := t2\<rparr>) =
                 (resp, w'\<lparr>clock := t2, fetched := fetched w' @ calls\<rparr>)) \<and>
      sent (snd (search num cy up r (w'\<lparr>clock := t2\<rparr>))) = sent w')"
proof (intro conjI impI)
  assume a: "cache_get (cache w) (clock w) (cacheKey path ps) = None \<and>
    up (clock w) path ps = (latency, Some d) \<and>
    tmdbFetch up path ps w = (out, w1) \<and>
    cache w2 (cacheKey path ps) = cache w1 (cacheKey path ps) \<and>
    clock w2 < clock w1 + CACHE_TTL_SECONDS * 1000"
  from tmdbFetch_miss [of w path ps up latency d] a
  have o: "out = Some d" and w1: "w1 = w\<lparr>fetched := fetched w @ [(path, ps)],
      sent := sent w @ [(path, ps)], clock := clock w + latency,
      cache := (cache w)(cacheKey path ps \<mapsto> (d, clock w + latency + CACHE_TTL_SECONDS * 1000))\<rparr>"
    by simp_all
  from o show "out = Some d" .
  from w1 show "sent w1 = sent w @ [(path, ps)]" by simp
  from w1 a have "cache w2 (cacheKey path ps) = Some (d, clock w1 + CACHE_TTL_SECONDS * 1000)"
    by simp
  moreover from a have "clock w2 \<le> clock w1 + CACHE_TTL_SECONDS * 1000" by simp
  ultimately show h: "tmdbFetch up path ps w2 = (Some d, w2\<lparr>fetched := fetched w2 @ [(path, ps)]\<rparr>)"
    by (rule tmdbFetch_hit)
  then show "sent (snd (tmdbFetch up path ps w2)) = sent w2" by simp
next
  assume a: "search num cy up r w = (resp, w') \<and> resp \<noteq> UpstreamUnavailable \<and>
    entriesUntil t2 w \<and> clock w' \<le> t2 \<and> t2 < clock w + CACHE_TTL_SECONDS * 1000"
  then have run: "search num cy up r w = (resp, w')" and good: "resp \<noteq> UpstreamUnavailable"
    and inv: "entriesUntil t2 w" and fin: "clock w' \<le> t2"
    and ttl: "t2 \<le> clock w + CACHE_TTL_SECONDS * 1000"
    by simp_all
  note 1 = search_replay [OF run good inv ttl fin]
  let ?v = "w'\<lparr>clock := t2\<rparr>"
  from 1 have "cache w' \<subseteq>\<^sub>m cache ?v" "entriesUntil (clock ?v) ?v" by simp_all
  with 1 obtain calls where
    c: "search num cy up r ?v = (resp, ?v\<lparr>fetched := fetched ?v @ calls\<rparr>)"
    by blast
  then show "\<exists>calls. search num cy up r (w'\<lparr>clock := t2\<rparr>) =
                 (resp, w'\<lparr>clock := t2, fetched := fetched w' @ calls\<rparr>)"
    by auto
  from c show "sent (snd (search num cy up r (w'\<lparr>clock := t2\<rparr>))) = sent w'"
    by simp
qed


theorem cached_within_ttl_witness:
  "search Number_digits 2026 mockUpstream (noRequest\<lparr>query := Some ''Inception''\<rparr>) freshWorld =
     (SearchResult [Item 27205 ''Inception''] 1 1 1,
      \<lparr>cache = [cacheKey ''/search/movie''
                   [(''query'', PStr ''Inception''), (''page'', PNum 1),
                    (''include_adult'', PBool False)] \<mapsto> (MOVIE_LIST, 600150)],
       clock = 150,
       fetched = [(''/search/movie'',
                   [(''query'', PStr ''Inception''), (''page'', PNum 1),
                    (''include_adult'', PBool False)])],
       sent = [(''/search/movie'',
                [(''query'', PStr ''Inception''), (''page'', PNum 1),
                 (''include_adult'', PBool False)])]\<rparr>) \<and>
   sent (snd (search Number_digits 2026 mockUpstream (noRequest\<lparr>query := Some ''Inception''\<rparr>)
     (\<lparr>cache = [cacheKey ''/search/movie''
                   [(''query'', PStr ''Inception''), (''page'', PNum 1),
                    (''include_adult'', PBool False)] \<mapsto> (MOVIE_LIST, 600150)],
       clock = 150,
       fetched = [(''/search/movie'',
                   [(''query'', PStr ''Inception''), (''page'', PNum 1),
                    (''include_adult'', PBool False)])],
       sent = [(''/search/movie'',
                [(''query'', PStr ''Inception''), (''page'', PNum 1),
                 (''include_adult'', PBool False)])]\<rparr>\<lparr>clock := 599999\<rparr>))) =
     [(''/search/movie'',
       [(''query'', PStr ''Inception''), (''page'', PNum 1), (''include_adult'', PBool False)])] \<and>
   tmdbFetch mockUpstream ''/search/movie''
     [(''query'', PStr ''Inception''), (''page'', PNum 1), (''include_adult'', PBool False)]
     \<lparr>cache = [cacheKey ''/search/movie''
                   [(''query'', PStr ''Inception''), (''page'', PNum 1),
                    (''include_adult'', PBool False)] \<mapsto> (MOVIE_LIST, 600150)],
       clock = 600149, fetched = [], sent = []\<rparr> =
     (Some MOVIE_LIST,
      \<lparr>cache = [cacheKey ''/search/movie''
                   [(''query'', PStr ''Inception''), (''page'', PNum 1),
                    (''include_adult'', PBool False)] \<mapsto> (MOVIE_LIST, 600150)],
       clock = 600149,
       fetched = [(''/search/movie'',
                   [(''query'', PStr ''Inception''), (''page'', PNum 1),
                    (''include_adult'', PBool False)])],
       sent = []\<rparr>)"
proof -
  let ?r = "noRequest\<lparr>query := Some ''Inception''\<rparr>"
  let ?tp = "[(''query'', PStr ''Inception''), (''page'', PNum 1), (''include_adult'', PBool False)]"
  let ?w1 = "\<lparr>cache = [cacheKey ''/search/movie'' ?tp \<mapsto> (MOVIE_LIST, 600150)],
       clock = 150, fetched = [(''/search/movie'', ?tp)], sent = [(''/search/movie'', ?tp)]\<rparr>"
  let ?w2 = "\<lparr>cache = [cacheKey ''/search/movie'' ?tp \<mapsto> (MOVIE_LIST, 600150)],
       clock = 600149, fetched = [], sent = []\<rparr>"
  have tr: "trim ''Inception'' = ''Inception''"
    by (simp add: trim_def isWhiteSpace_def)
  have v: "validate Number_digits 2026 ?r = Inr 1"
    by (simp add: validate_def noRequest_def truthy_def Number_digits_def isDigit_def)
  have rp: "resolvePersons mockUpstream ?r 1 freshWorld = (Proceed (None, None), freshWorld)"
    by (simp add: resolvePersons_falsy noRequest_def truthy_def)
  have tp: "titleParams ''Inception'' 1 (year ?r) = ?tp"
    by (simp add: titleParams_eq noRequest_def truthy_def tr)
  have g: "cache_get (cache freshWorld) (clock freshWorld) (cacheKey ''/search/movie'' ?tp) = None"
    by (simp add: freshWorld_def cache_get_def)
  have u: "mockUpstream (clock freshWorld) ''/search/movie'' ?tp = (150, Some MOVIE_LIST)"
    by (simp add: mockUpstream_def)
  have f: "tmdbFetch mockUpstream ''/search/movie'' ?tp freshWorld = (Some MOVIE_LIST, ?w1)"
    by (simp add: tmdbFetch_def freshWorld_def cache_get_def cache_set_def mockUpstream_def
        CACHE_TTL_SECONDS_def)
  have "strategy mockUpstream ?r 1 None None freshWorld = (Some MOVIE_LIST, ?w1)"
    using f tp by (simp add: strategy_def useDiscover_def noRequest_def truthy_def truthy_id_def)
  from search_strategy [OF v rp this]
  have s: "search Number_digits 2026 mockUpstream ?r freshWorld =
      (SearchResult [Item 27205 ''Inception''] 1 1 1, ?w1)"
    by (simp add: respond_def MOVIE_LIST_def)
  have e: "entriesUntil 599999 freshWorld"
    by (simp add: entriesUntil_def freshWorld_def)
  note t = cached_within_ttl [of freshWorld "''/search/movie''" ?tp mockUpstream 150 MOVIE_LIST
      "Some MOVIE_LIST" ?w1 ?w2 Number_digits 2026 ?r "SearchResult [Item 27205 ''Inception''] 1 1 1"
      ?w1 599999]
  from t g u f have 1: "tmdbFetch mockUpstream ''/search/movie'' ?tp ?w2 =
      (Some MOVIE_LIST, ?w2\<lparr>fetched := fetched ?w2 @ [(''/search/movie'', ?tp)]\<rparr>)"
    by (simp add: CACHE_TTL_SECONDS_def)
  from t s e have 2: "sent (snd (search Number_digits 2026 mockUpstream ?r (?w1\<lparr>clock := 599999\<rparr>))) =
      sent ?w1"
    by (simp add: CACHE_TTL_SECONDS_def UpstreamUnavailable_def freshWorld_def)
  from s 1 2 show ?thesis by simp
qed

subsection \<open>Abuse control\<close>

lemma filter_window_later:
  assumes "t \<le> u"
  shows "filter (\<lambda>s. t < s + windowMs \<and> u < s + windowMs) xs =
         filter (\<lambda>s. u < s + windowMs) xs"
  using assms by (intro filter_cong) auto

lemma serve_ordinal:
  assumes "sorted ts" "n < length ts"
  shows "serve False ws addr ts ! n =
           (let seen = filter (\<lambda>s. ts ! n < s + windowMs) (ws addr @ take n ts) @ [ts ! n];
                hits = length seen
            in if hits > maxHits then RateLimited hits (hd seen + windowMs - ts ! n)
               else Admitted (if hits > delayAfter then delayMs (int hits) else 0))"
  using assms
proof (induction ts arbitrary: ws n)
  case Nil
  then show ?case by simp
next
  case (Cons t ts)
  define ws' where "ws' = ws(addr := observe ws addr t)"
  have ws': "ws' addr = filter (\<lambda>s. t < s + windowMs) (ws addr) @ [t]"
    by (simp add: ws'_def observe_def)
  have ac: "abuseControl False ws addr t =
      (let seen = filter (\<lambda>s. t < s + windowMs) (ws addr) @ [t];
           hits = length seen
       in if hits > maxHits then RateLimited hits (hd seen + windowMs - t)
          else Admitted (if hits > delayAfter then delayMs (int hits) else 0), ws')"
    by (simp add: abuseControl_def observe_def Let_def ws'_def)
  show ?case
  proof (cases n)
    case 0
    with ac show ?thesis by (simp add: Let_def)
  next
    case (Suc m)
    from Cons.prems Suc have m: "m < length ts" by simp
    from Cons.prems(1) have s: "sorted ts" by simp
    from Cons.prems(1) m have le: "t \<le> ts ! m" by simp
    have w: "0 < windowMs" by (simp add: windowMs_def)
    have f: "filter (\<lambda>s. ts ! m < s + windowMs) (ws' addr @ take m ts) =
        filter (\<lambda>s. (t # ts) ! Suc m < s + windowMs) (ws addr @ take (Suc m) (t # ts))"
      using le w by (simp add: ws' filter_window_later)
    have nth: "ts ! m = (t # ts) ! Suc m" by simp
    have step: "serve False ws addr (t # ts) ! Suc m = serve False ws' addr ts ! m"
      by (simp add: ac)
    show ?thesis
      unfolding Suc step Cons.IH [of m ws', OF s m] f unfolding nth ..
  qed
qed


text \<open>
  Claim C7. Outside test mode, let a client address with any recorded history issue requests
  at non-decreasing times. The ordinal of a request in its trailing 60-second window is one
  more than the number of requests of that address, recorded or issued before it, that are
  less than 60 seconds old when it arrives. A request of ordinal at most 30 is admitted
  without delay, one of ordinal \<open>k\<close> from 31 to 40 is admitted after \<open>(k - 30) * 500\<close>
  milliseconds, and one of ordinal 41 or more is rejected with RateLimited, carrying the
  count and the time to the reset of the window. In particular, when the recorded history is
  at least 60 seconds old and the request comes less than 60 seconds after the first of the
  new ones, its ordinal is its number among the new ones. In test mode every request is
  admitted without delay.
\<close>

theorem abuse_control_window:
  assumes "sorted ts" "n < length ts"
  shows
    "(let seen = filter (\<lambda>s. ts ! n < s + 60000) (ws addr @ take n ts) @ [ts ! n];
          k = length seen
      in serve False ws addr ts ! n =
           (if k \<le> 30 then Admitted 0
            else if k \<le> 40 then Admitted ((int k - 30) * 500)
            else RateLimited k (hd seen + 60000 - ts ! n))) \<and>
     ((\<forall>s\<in>set (ws addr). s + 60000 \<le> ts ! n) \<and> ts ! n < hd ts + 60000 \<longrightarrow>
        serve False ws addr ts ! n =
          (if n + 1 \<le> 30 then Admitted 0
           else if n + 1 \<le> 40 then Admitted ((int (n + 1) - 30) * 500)
           else RateLimited (n + 1) (hd ts + 60000 - ts ! n))) \<and>
     abuseControl True ws addr (ts ! n) = (Admitted 0, ws)"
proof -
  let ?seen = "filter (\<lambda>s. ts ! n < s + 60000) (ws addr @ take n ts) @ [ts ! n]"
  have 1: "serve False ws addr ts ! n =
      (if length ?seen \<le> 30 then Admitted 0
       else if length ?seen \<le> 40 then Admitted ((int (length ?seen) - 30) * 500)
       else RateLimited (length ?seen) (hd ?seen + 60000 - ts ! n))"
    using serve_ordinal [OF assms, of ws addr]
    by (auto simp: Let_def maxHits_def delayAfter_def delayMs_def windowMs_def)
  have 2: "serve False ws addr ts ! n =
      (if n + 1 \<le> 30 then Admitted 0
       else if n + 1 \<le> 40 then Admitted ((int (n + 1) - 30) * 500)
       else RateLimited (n + 1) (hd ts + 60000 - ts ! n))"
    if old: "\<forall>s\<in>set (ws addr). s + 60000 \<le> ts ! n" and burst: "ts ! n < hd ts + 60000"
  proof -
    from assms(2) have ne: "ts \<noteq> []" by auto
    from old have a: "filter (\<lambda>s. ts ! n < s + 60000) (ws addr) = []"
      by (auto simp: filter_empty_conv)
    have "ts ! n < x + 60000" if x: "x \<in> set (take n ts)" for x
    proof -
      from x have "x \<in> set ts" by (rule in_set_takeD)
      with assms(1) ne have "hd ts \<le> x" by (cases ts) auto
      with burst show ?thesis by simp
    qed
    then have b: "filter (\<lambda>s. ts ! n < s + 60000) (take n ts) = take n ts"
      by (simp add: filter_id_conv)
    from a b assms(2) have seen: "?seen = take (Suc n) ts"
      by (simp add: take_Suc_conv_app_nth)
    from ne have "hd (take (Suc n) ts) = hd ts" by (cases ts) simp_all
    with seen assms(2) have "length ?seen = n + 1" "hd ?seen = hd ts" by simp_all
    with 1 show ?thesis by simp
  qed
  have 3: "abuseControl True ws addr (ts ! n) = (Admitted 0, ws)"
    by (simp add: abuseControl_def)
  from 1 2 3 show ?thesis unfolding Let_def by blast
qed

theorem abuse_control_window_witness:
  "serve False (\<lambda>a. [0, 1, 2]) ''203.0.113.7''
     (map (\<lambda>i. 70000 + 1000 * i) [0..<41] @ [170000, 200000]) ! 40 = RateLimited 41 20000 \<and>
   serve False (\<lambda>a. [0, 1, 2]) ''203.0.113.7''
     (map (\<lambda>i. 70000 + 1000 * i) [0..<41] @ [170000, 200000]) ! 39 = Admitted 5000 \<and>
   serve False (\<lambda>a. [0, 1, 2]) ''203.0.113.7''
     (map (\<lambda>i. 70000 + 1000 * i) [0..<41] @ [170000, 200000]) ! 30 = Admitted 500 \<and>
   serve False (\<lambda>a. [0, 1, 2]) ''203.0.113.7''
     (map (\<lambda>i. 70000 + 1000 * i) [0..<41] @ [170000, 200000]) ! 29 = Admitted 0 \<and>
   serve False (\<lambda>a. [0, 1, 2]) ''203.0.113.7''
     (map (\<lambda>i. 70000 + 1000 * i) [0..<41] @ [170000, 200000]) ! 41 = Admitted 0 \<and>
   serve False (\<lambda>a. [0, 1, 2]) ''203.0.113.7''
     (map (\<lambda>i. 70000 + 1000 * i) [0..<41] @ [170000, 200000]) ! 42 = Admitted 0"
proof -
  let ?ts = "[70000, 71000, 72000, 73000, 74000, 75000, 76000, 77000, 78000, 79000,
     80000, 81000, 82000, 83000, 84000, 85000, 86000, 87000, 88000, 89000,
     90000, 91000, 92000, 93000, 94000, 95000, 96000, 97000, 98000, 99000,
     100000, 101000, 102000, 103000, 104000, 105000, 106000, 107000, 108000, 109000,
     110000, 170000, 200000] :: nat list"
  let ?ws = "\<lambda>a :: string. [0, 1, 2 :: nat]"
  have e: "map (\<lambda>i. 70000 + 1000 * i) [0..<41] @ [170000, 200000 :: nat] = ?ts"
    by (simp add: upt_rec)
  have s: "sorted ?ts"
    by simp
  have k41: "filter (\<lambda>s. ?ts ! 41 < s + 60000) (?ws ''203.0.113.7'' @ take 41 ?ts) = []"
    by simp
  have k42: "filter (\<lambda>s. ?ts ! 42 < s + 60000) (?ws ''203.0.113.7'' @ take 42 ?ts) = [170000]"
    by simp
  note t = abuse_control_window [OF s, of _ ?ws "''203.0.113.7''"]
  from t [of 40] have 1: "serve False ?ws ''203.0.113.7'' ?ts ! 40 = RateLimited 41 20000"
    by simp
  from t [of 39] have 2: "serve False ?ws ''203.0.113.7'' ?ts ! 39 = Admitted 5000"
    by simp
  from t [of 30] have 3: "serve False ?ws ''203.0.113.7'' ?ts ! 30 = Admitted 500"
    by simp
  from t [of 29] have 4: "serve False ?ws ''203.0.113.7'' ?ts ! 29 = Admitted 0"
    by simp
  from t [of 41] have 5: "serve False ?ws ''203.0.113.7'' ?ts ! 41 = Admitted 0"
    unfolding k41 by (simp add: Let_def)
  from t [of 42] have 6: "serve False ?ws ''203.0.113.7'' ?ts ! 42 = Admitted 0"
    unfolding k42 by (simp add: Let_def)
  from 1 2 3 4 5 6 show ?thesis unfolding e by simp
qed

end
